theory Spec2Isabelle
  imports Complex_Main "HOL-Library.Sublist" "HOL-Library.AList" "HOL-Library.Multiset"
begin

section \<open>Data model\<close>

text \<open>
  The chart component works on JavaScript numbers. Timestamps of candles and points are
  integral milliseconds since the epoch and are modelled as \<open>int\<close>; prices, percentages
  and seat counts are modelled as \<open>real\<close>, with exact arithmetic in place of IEEE
  rounding. Array indices are \<open>int\<close> as well, because the search loops let \<open>hi\<close>
  reach \<open>-1\<close>. \<open>nearestIndexByTimestamp\<close> takes a plain \<open>number[]\<close> and a target that
  need not be integral (a pixel position converted to a time), so it is modelled over any
  ordered number type, \<open>int\<close> and \<open>real\<close> among them.

  The generic helpers of the source accept any object with a numeric \<open>timestamp\<close> field
  (\<open>T extends { timestamp: number }\<close>); the record \<open>Timestamped\<close> with its extensions
  plays that role.
\<close>

text \<open>
  A JavaScript number that may fail to be finite. It is used where the source can really
  produce \<open>NaN\<close> or an infinity: the result of \<open>Number(string)\<close>.
\<close>

datatype jsnum = Finite real | NaN | PosInfinity | NegInfinity

record Timestamped =
  timestamp :: int

record Candle = Timestamped +
  "open" :: real
  high :: real
  low :: real
  close :: real
  updates :: jsnum

record ProjectionPoint = Timestamped +
  "value" :: real

record TimeRange =
  startMs :: int
  endMs :: int

section \<open>Binary search utilities\<close>

text \<open>
  The \<open>while (lo <= hi)\<close> loop of \<open>nearestIndexByTimestamp\<close>. It leaves either through
  the early \<open>return mid\<close> (\<open>Found\<close>) or through the loop condition, handing the final
  \<open>lo\<close> to the code after the loop (\<open>Exhausted\<close>).
\<close>

datatype search_exit = Found int | Exhausted int

function nearest_loop :: "'a::linordered_idom list \<Rightarrow> 'a \<Rightarrow> int \<Rightarrow> int \<Rightarrow> search_exit" where
  "nearest_loop timestamps target lo hi =
     (if lo \<le> hi then
        let mid = (lo + hi) div 2;
            v = timestamps ! nat mid
        in if v = target then Found mid
           else if v < target then nearest_loop timestamps target (mid + 1) hi
           else nearest_loop timestamps target lo (mid - 1)
      else Exhausted lo)"
  by pat_completeness auto
termination
  by (relation "measure (\<lambda>(timestamps, target, lo, hi). nat (hi - lo + 1))") auto

declare nearest_loop.simps [simp del]

definition nearestIndexByTimestamp :: "'a::linordered_idom list \<Rightarrow> 'a \<Rightarrow> int" where
  "nearestIndexByTimestamp timestamps target =
     (if length timestamps = 0 then 0
      else case nearest_loop timestamps target 0 (int (length timestamps) - 1) of
             Found mid \<Rightarrow> mid
           | Exhausted lo \<Rightarrow>
               if lo \<le> 0 then 0
               else if lo \<ge> int (length timestamps) then int (length timestamps) - 1
               else if \<bar>timestamps ! nat lo - target\<bar> < \<bar>timestamps ! nat (lo - 1) - target\<bar>
                    then lo else lo - 1)"

text \<open>
  \<open>findCloseAtOrBefore\<close>: the loop carries \<open>best\<close>, the last index seen with a
  timestamp at or before the target, starting from \<open>-1\<close>.
\<close>

function close_loop :: "Candle list \<Rightarrow> int \<Rightarrow> int \<Rightarrow> int \<Rightarrow> int \<Rightarrow> int" where
  "close_loop candles targetTs lo hi best =
     (if lo \<le> hi then
        let mid = (lo + hi) div 2
        in if timestamp (candles ! nat mid) \<le> targetTs
           then close_loop candles targetTs (mid + 1) hi mid
           else close_loop candles targetTs lo (mid - 1) best
      else best)"
  by pat_completeness auto
termination
  by (relation "measure (\<lambda>(candles, targetTs, lo, hi, best). nat (hi - lo + 1))") auto

declare close_loop.simps [simp del]

definition findCloseAtOrBefore :: "Candle list \<Rightarrow> int \<Rightarrow> real option" where
  "findCloseAtOrBefore candles targetTs =
     (if length candles = 0 then None
      else let best = close_loop candles targetTs 0 (int (length candles) - 1) (- 1)
           in if best < 0 then None else Some (close (candles ! nat best)))"

section \<open>Format normalizer\<close>

text \<open>
  The provider's candlestick shape. Every field that the source declares optional, or
  tests at run time before use (\<open>typeof c.end_period_ts !== 'number'\<close>,
  \<open>data.candlesticks || []\<close>, \<open>data.ticker || marketId\<close>), is an \<open>option\<close>.
  The integer-cents fields \<open>open\<close>, \<open>high\<close>, \<open>low\<close> and \<open>close\<close> of
  \<open>KalshiCandlestickField\<close> carry the suffix \<open>_c\<close>, and the fields of the two response
  shapes the prefix \<open>resp_\<close>, to keep them apart from the fields of the same names in
  \<open>Candle\<close> and in the seat-projection records. JSON numbers are finite and modelled as
  \<open>real\<close> (timestamps as \<open>int\<close>).
\<close>

record KalshiCandlestickField =
  open_c :: "real option"
  high_c :: "real option"
  low_c :: "real option"
  close_c :: "real option"
  open_dollars :: "string option"
  high_dollars :: "string option"
  low_dollars :: "string option"
  close_dollars :: "string option"

record KalshiCandlestick =
  end_period_ts :: "int option"
  price :: "KalshiCandlestickField option"
  yes_bid :: "KalshiCandlestickField option"
  volume :: "real option"
  volume_fp :: "string option"

record KalshiCandlestickResponse =
  resp_ticker :: "string option"
  candlesticks :: "KalshiCandlestick list option"

record ResponseMetadata =
  points_requested :: "real option"
  points_returned :: "real option"
  meta_start :: "real option"
  meta_end :: "real option"

record PriceResponse =
  marketId :: string
  resp_candles :: "Candle list"
  metadata :: "ResponseMetadata option"

datatype response = Canonical PriceResponse | Provider KalshiCandlestickResponse

text \<open>
  \<open>parseDollar\<close>. The built-in conversion \<open>Number(value)\<close> from a string is a
  parameter \<open>toNumber\<close> of the model, so that every statement below holds for whatever
  the JavaScript engine computes; \<open>Number.isFinite(n) ? n : null\<close> keeps the finite
  results only.
\<close>

definition parseDollar :: "(string \<Rightarrow> jsnum) \<Rightarrow> string option \<Rightarrow> real option" where
  "parseDollar toNumber v =
     (case v of
        None \<Rightarrow> None
      | Some s \<Rightarrow> (case toNumber s of Finite n \<Rightarrow> Some n | _ \<Rightarrow> None))"

text \<open>The nullish coalescing operator \<open>a ?? b\<close> on optional values.\<close>

definition nullish :: "'a option \<Rightarrow> 'a option \<Rightarrow> 'a option" where
  "nullish a b = (case a of Some x \<Rightarrow> Some x | None \<Rightarrow> b)"

text \<open>
  \<open>typeof x === 'number' ? x / 100 : null\<close> on an optional integer-cents field.
\<close>

definition cents_to_dollars :: "real option \<Rightarrow> real option" where
  "cents_to_dollars x = (case x of Some n \<Rightarrow> Some (n / 100) | None \<Rightarrow> None)"

text \<open>
  The callback that \<open>normalizeCandles\<close> maps over \<open>data.candlesticks\<close>; \<open>None\<close> is
  its \<open>return null\<close>, removed by the \<open>filter\<close> that follows. \<open>updates\<close> is
  \<open>c.volume ?? Number(c.volume_fp ?? 0)\<close>, where \<open>Number(0)\<close> is \<open>0\<close>.
\<close>

definition normalizeCandlestick :: "(string \<Rightarrow> jsnum) \<Rightarrow> KalshiCandlestick \<Rightarrow> Candle option" where
  "normalizeCandlestick toNumber c =
     (case nullish (price c) (yes_bid c) of
        None \<Rightarrow> None
      | Some source \<Rightarrow>
          let open' = nullish (parseDollar toNumber (open_dollars source)) (cents_to_dollars (open_c source));
              high' = nullish (parseDollar toNumber (high_dollars source)) (cents_to_dollars (high_c source));
              low' = nullish (parseDollar toNumber (low_dollars source)) (cents_to_dollars (low_c source));
              close' = nullish (parseDollar toNumber (close_dollars source)) (cents_to_dollars (close_c source))
          in if open' = None \<or> high' = None \<or> low' = None \<or> close' = None \<or>
                end_period_ts c = None
             then None
             else Some \<lparr>timestamp = the (end_period_ts c) * 1000,
                        open = the open', high = the high', low = the low', close = the close',
                        updates = (case volume c of
                                     Some v \<Rightarrow> Finite v
                                   | None \<Rightarrow> (case volume_fp c of
                                                Some s \<Rightarrow> toNumber s
                                              | None \<Rightarrow> Finite 0))\<rparr>)"

definition normalizeCandles :: "(string \<Rightarrow> jsnum) \<Rightarrow> response \<Rightarrow> string \<Rightarrow> PriceResponse" where
  "normalizeCandles toNumber data' marketId' =
     (case data' of
        Canonical d \<Rightarrow> d
      | Provider d \<Rightarrow>
          \<lparr>marketId = (case resp_ticker d of
                         Some t \<Rightarrow> if t \<noteq> [] then t else marketId'
                       | None \<Rightarrow> marketId'),
           resp_candles = List.map_filter (normalizeCandlestick toNumber)
                            (case candlesticks d of Some cs \<Rightarrow> cs | None \<Rightarrow> []),
           metadata = None\<rparr>)"

text \<open>
  The four price components, to state a property once for all of them: the decimal-string
  dollar field, the integer-cents field and the normalized value of a component.
\<close>

datatype ohlc = Open | High | Low | Close

fun dollars_of :: "ohlc \<Rightarrow> KalshiCandlestickField \<Rightarrow> string option" where
  "dollars_of Open f = open_dollars f"
| "dollars_of High f = high_dollars f"
| "dollars_of Low f = low_dollars f"
| "dollars_of Close f = close_dollars f"

fun cents_of :: "ohlc \<Rightarrow> KalshiCandlestickField \<Rightarrow> real option" where
  "cents_of Open f = open_c f"
| "cents_of High f = high_c f"
| "cents_of Low f = low_c f"
| "cents_of Close f = close_c f"

fun component :: "ohlc \<Rightarrow> Candle \<Rightarrow> real" where
  "component Open c = open c"
| "component High c = high c"
| "component Low c = low c"
| "component Close c = close c"

text \<open>
  The value a component resolves to before the null check:
  \<open>parseDollar(source.k_dollars) ?? (typeof source.k === 'number' ? source.k / 100 : null)\<close>.
\<close>

definition resolved :: "(string \<Rightarrow> jsnum) \<Rightarrow> ohlc \<Rightarrow> KalshiCandlestickField \<Rightarrow> real option" where
  "resolved toNumber k f =
     nullish (parseDollar toNumber (dollars_of k f)) (cents_to_dollars (cents_of k f))"

text \<open>Provider candlesticks for the examples: all four components carry both fields.\<close>

definition sample_field :: KalshiCandlestickField where
  "sample_field =
     \<lparr>open_c = Some 10, high_c = Some 20, low_c = Some 5, close_c = Some 15,
      open_dollars = Some ''0.4400'', high_dollars = Some ''0.4700'',
      low_dollars = Some ''0.4300'', close_dollars = Some ''0.4500''\<rparr>"

definition sample_stick :: "KalshiCandlestickField \<Rightarrow> KalshiCandlestick" where
  "sample_stick f =
     \<lparr>end_period_ts = Some 1700000000, price = Some f, yes_bid = None,
      volume = None, volume_fp = Some ''12.00''\<rparr>"

text \<open>
  The values that \<open>Number\<close> takes on the strings of the examples below; no other
  string is passed to it there.
\<close>

definition sampleNumber :: "string \<Rightarrow> jsnum" where
  "sampleNumber s =
     (if s = ''0.4400'' then Finite 0.44
      else if s = ''0.4700'' then Finite 0.47
      else if s = ''0.4300'' then Finite 0.43
      else if s = ''0.4500'' then Finite 0.45
      else if s = ''12.00'' then Finite 12
      else NaN)"

section \<open>Weighted seat projection\<close>

text \<open>
  The part of \<open>fetchExpectedSeatsProjection\<close> that follows the fetches. An element of
  \<open>candleResults\<close> is a seat market \<open>{ticker, seats}\<close> together with its candle
  history.
\<close>

record CandleResult =
  ticker :: string
  seats :: real
  candles :: "Candle list"

text \<open>
  \<open>baseTimestamps\<close>: the reference timestamps when they are given and not empty,
  otherwise the distinct timestamps of all fetched candles, sorted ascending
  (\<open>Array.from(new Set(...)).sort((a, b) => a - b)\<close>).
\<close>

definition baseTimestamps :: "int list option \<Rightarrow> CandleResult list \<Rightarrow> int list" where
  "baseTimestamps referenceTimestamps candleResults =
     (let union = sort (remdups (concat (map (\<lambda>r. map timestamp (candles r)) candleResults)))
      in case referenceTimestamps of
           Some r \<Rightarrow> if length r > 0 then r else union
         | None \<Rightarrow> union)"

text \<open>
  The inner loop \<open>for (const market of candleResults)\<close> with its two accumulators, and
  the outer loop \<open>for (const ts of baseTimestamps)\<close> that pushes a point when
  \<open>totalProb > 0\<close>.
\<close>

fun seat_inner :: "CandleResult list \<Rightarrow> int \<Rightarrow> real \<Rightarrow> real \<Rightarrow> real \<times> real" where
  "seat_inner [] ts weighted totalProb = (weighted, totalProb)"
| "seat_inner (market # rest) ts weighted totalProb =
     (case findCloseAtOrBefore (candles market) ts of
        None \<Rightarrow> seat_inner rest ts weighted totalProb
      | Some p \<Rightarrow> seat_inner rest ts (weighted + seats market * p) (totalProb + p))"

fun seat_outer :: "int list \<Rightarrow> CandleResult list \<Rightarrow> ProjectionPoint list \<Rightarrow> ProjectionPoint list" where
  "seat_outer [] candleResults points = points"
| "seat_outer (ts # rest) candleResults points =
     (case seat_inner candleResults ts 0 0 of
        (weighted, totalProb) \<Rightarrow>
          if totalProb > 0
          then seat_outer rest candleResults (points @ [\<lparr>timestamp = ts, value = weighted / totalProb\<rparr>])
          else seat_outer rest candleResults points)"

definition expectedSeatsPoints :: "int list option \<Rightarrow> CandleResult list \<Rightarrow> ProjectionPoint list" where
  "expectedSeatsPoints referenceTimestamps candleResults =
     seat_outer (baseTimestamps referenceTimestamps candleResults) candleResults []"

text \<open>
  The specification's vocabulary for the projection: a market's last close at or before
  \<open>T\<close> (none when no candle is that early), the weight a market contributes at \<open>T\<close>,
  and the two sums of the weighted average.
\<close>

definition lastCloseAtOrBefore :: "Candle list \<Rightarrow> int \<Rightarrow> real option" where
  "lastCloseAtOrBefore cs T =
     (case filter (\<lambda>c. timestamp c \<le> T) cs of
        [] \<Rightarrow> None
      | x # xs \<Rightarrow> Some (close (last (x # xs))))"

definition price_at :: "CandleResult \<Rightarrow> int \<Rightarrow> real" where
  "price_at m T = (case lastCloseAtOrBefore (candles m) T of None \<Rightarrow> 0 | Some p \<Rightarrow> p)"

definition weightSum :: "CandleResult list \<Rightarrow> int \<Rightarrow> real" where
  "weightSum ms T = sum_list (map (\<lambda>m. price_at m T) ms)"

definition seatSum :: "CandleResult list \<Rightarrow> int \<Rightarrow> real" where
  "seatSum ms T = sum_list (map (\<lambda>m. seats m * price_at m T) ms)"

text \<open>Two seat markets quoted at 0.3 and 0.7 at timestamp 2000, for 10 and 20 seats.\<close>

definition sample_markets :: "CandleResult list" where
  "sample_markets =
     [\<lparr>ticker = ''SEATS-10'', seats = 10,
       candles = [\<lparr>timestamp = 1000, open = 0.3, high = 0.3, low = 0.3, close = 0.3,
                   updates = Finite 1\<rparr>]\<rparr>,
      \<lparr>ticker = ''SEATS-20'', seats = 20,
       candles = [\<lparr>timestamp = 900, open = 0.5, high = 0.5, low = 0.5, close = 0.5,
                   updates = Finite 1\<rparr>,
                  \<lparr>timestamp = 2000, open = 0.7, high = 0.7, low = 0.7, close = 0.7,
                   updates = Finite 1\<rparr>]\<rparr>]"

text \<open>
  Baskets whose candle histories arrive out of order: a 10-seat market with timestamps
  \<open>1000, 3000, 2000\<close> beside a 20-seat market, and a single market with timestamps
  \<open>3000, 1000\<close>.
\<close>

definition unsorted_markets :: "CandleResult list" where
  "unsorted_markets =
     [\<lparr>ticker = ''SEATS-10'', seats = 10,
       candles = [\<lparr>timestamp = 1000, open = 0.3, high = 0.3, low = 0.3, close = 0.3,
                   updates = Finite 1\<rparr>,
                  \<lparr>timestamp = 3000, open = 0.7, high = 0.7, low = 0.7, close = 0.7,
                   updates = Finite 1\<rparr>,
                  \<lparr>timestamp = 2000, open = 0.5, high = 0.5, low = 0.5, close = 0.5,
                   updates = Finite 1\<rparr>]\<rparr>,
      \<lparr>ticker = ''SEATS-20'', seats = 20,
       candles = [\<lparr>timestamp = 1000, open = 0.5, high = 0.5, low = 0.5, close = 0.5,
                   updates = Finite 1\<rparr>]\<rparr>]"

definition unsorted_single :: "CandleResult list" where
  "unsorted_single =
     [\<lparr>ticker = ''SEATS-10'', seats = 10,
       candles = [\<lparr>timestamp = 3000, open = 0.7, high = 0.7, low = 0.7, close = 0.7,
                   updates = Finite 1\<rparr>,
                  \<lparr>timestamp = 1000, open = 0.5, high = 0.5, low = 0.5, close = 0.5,
                   updates = Finite 1\<rparr>]\<rparr>]"

section \<open>Time window\<close>

text \<open>
  The string union \<open>'1D' | '7D' | '30D' | 'ALL' | 'CUSTOM'\<close>; the constructors carry the
  prefix \<open>TF_\<close> because a name cannot start with a digit.
\<close>

datatype Timeframe = TF_1D | TF_7D | TF_30D | TF_ALL | TF_CUSTOM

text \<open>
  \<open>TIMEFRAME_CONFIG\<close>; the fields \<open>points\<close> and \<open>startMs\<close> carry the prefix
  \<open>cfg_\<close>.
\<close>

record TimeframeConfig =
  cfg_points :: nat
  cfg_startMs :: "int option"
  periodInterval :: nat

fun TIMEFRAME_CONFIG :: "Timeframe \<Rightarrow> TimeframeConfig" where
  "TIMEFRAME_CONFIG TF_1D =
     \<lparr>cfg_points = 50, cfg_startMs = Some (24 * 60 * 60 * 1000), periodInterval = 60\<rparr>"
| "TIMEFRAME_CONFIG TF_7D =
     \<lparr>cfg_points = 100, cfg_startMs = Some (7 * 24 * 60 * 60 * 1000), periodInterval = 60\<rparr>"
| "TIMEFRAME_CONFIG TF_30D =
     \<lparr>cfg_points = 150, cfg_startMs = Some (30 * 24 * 60 * 60 * 1000), periodInterval = 1440\<rparr>"
| "TIMEFRAME_CONFIG TF_ALL =
     \<lparr>cfg_points = 200, cfg_startMs = Some (365 * 24 * 60 * 60 * 1000), periodInterval = 1440\<rparr>"
| "TIMEFRAME_CONFIG TF_CUSTOM =
     \<lparr>cfg_points = 250, cfg_startMs = None, periodInterval = 60\<rparr>"

text \<open>\<open>getTimeWindow\<close>; the clock reading \<open>Date.now()\<close> is the parameter \<open>now\<close>.\<close>

definition getTimeWindow :: "int \<Rightarrow> Timeframe \<Rightarrow> TimeRange option \<Rightarrow> TimeRange" where
  "getTimeWindow now timeframe customRange =
     (if timeframe = TF_CUSTOM \<and> customRange \<noteq> None then the customRange
      else if timeframe = TF_ALL then \<lparr>startMs = 0, endMs = now\<rparr>
      else \<lparr>startMs = now - (case cfg_startMs (TIMEFRAME_CONFIG timeframe) of
                                Some v \<Rightarrow> v
                              | None \<Rightarrow> 365 * 24 * 60 * 60 * 1000),
            endMs = now\<rparr>)"

section \<open>Approval aggregator\<close>

text \<open>
  The part of \<open>fetchTrumpApprovalProjection\<close> that follows the fetch. Two built-ins are
  parameters of the model: \<open>parseDate\<close> is \<open>new Date(dateString).getTime()\<close>, with
  \<open>None\<close> for the \<open>NaN\<close> of an unparseable date, and \<open>toLowerCase\<close> is the string
  method of that name.
\<close>

record Answer =
  choice :: "string option"
  percent :: "real option"

record Poll =
  date :: "string option"
  end_date :: "string option"
  answers :: "Answer list option"

text \<open>
  The callback mapped over \<open>data.polls\<close>. \<open>poll.date || poll.end_date\<close> skips an empty
  \<open>date\<close>; \<open>Number(approve.percent)\<close> is \<open>NaN\<close> exactly when the percentage is missing.
\<close>

definition pollPoint ::
  "(string \<Rightarrow> int option) \<Rightarrow> (string \<Rightarrow> string) \<Rightarrow> TimeRange \<Rightarrow> Poll \<Rightarrow> ProjectionPoint option" where
  "pollPoint parseDate toLowerCase window poll =
     (let dateString = (case date poll of
                          Some s \<Rightarrow> if s \<noteq> [] then Some s else end_date poll
                        | None \<Rightarrow> end_date poll)
      in case dateString of
           None \<Rightarrow> None
         | Some s \<Rightarrow>
             if s = [] then None
             else (case parseDate s of
                     None \<Rightarrow> None
                   | Some ts \<Rightarrow>
                       if ts < startMs window \<or> ts > endMs window then None
                       else (case find (\<lambda>a. toLowerCase (case choice a of Some c \<Rightarrow> c | None \<Rightarrow> [])
                                             = ''approve'')
                                    (case answers poll of Some as \<Rightarrow> as | None \<Rightarrow> []) of
                               None \<Rightarrow> None
                             | Some approve \<Rightarrow>
                                 (case percent approve of
                                    None \<Rightarrow> None
                                  | Some v \<Rightarrow> Some \<lparr>timestamp = ts, value = v\<rparr>))))"

definition approvalRaw ::
  "(string \<Rightarrow> int option) \<Rightarrow> (string \<Rightarrow> string) \<Rightarrow> TimeRange \<Rightarrow> Poll list option
     \<Rightarrow> ProjectionPoint list" where
  "approvalRaw parseDate toLowerCase window polls =
     sort_key timestamp
       (List.map_filter (pollPoint parseDate toLowerCase window)
          (case polls of Some ps \<Rightarrow> ps | None \<Rightarrow> []))"

text \<open>
  \<open>Date.UTC(d.getUTCFullYear(), d.getUTCMonth(), d.getUTCDate())\<close> for the date \<open>d\<close> of
  a timestamp: the start of the UTC day that contains it; a day has 86400000 milliseconds
  and the day number of a time value is its floor division by that length, also before
  1970. (For a date in the years 0 to 99 \<open>Date.UTC\<close> reads the year as \<open>1900 + year\<close>
  and returns the midnight of that other day; polls dated that early are left out of the
  model.)
\<close>

definition utcDayStart :: "int \<Rightarrow> int" where
  "utcDayStart t = (t div 86400000) * 86400000"

text \<open>
  \<open>dayBuckets\<close> is a \<open>Map\<close> from day start to \<open>{sum, count}\<close>; it is modelled as an
  association list in insertion order, a bucket being the pair \<open>(sum, count)\<close>.
  \<open>AList.update\<close> overwrites the entry of a key in place or appends a new entry, as
  \<open>Map.set\<close> does.
\<close>

definition add_to_bucket ::
  "ProjectionPoint \<Rightarrow> (int \<times> real \<times> real) list \<Rightarrow> (int \<times> real \<times> real) list" where
  "add_to_bucket p dayBuckets =
     (let dayTs = utcDayStart (timestamp p);
          bucket = (case map_of dayBuckets dayTs of Some b \<Rightarrow> b | None \<Rightarrow> (0, 0))
      in AList.update dayTs (fst bucket + value p, snd bucket + 1) dayBuckets)"

definition dayBuckets :: "ProjectionPoint list \<Rightarrow> (int \<times> real \<times> real) list" where
  "dayBuckets raw = fold add_to_bucket raw []"

definition dailyAverages :: "(int \<times> real \<times> real) list \<Rightarrow> ProjectionPoint list" where
  "dailyAverages buckets =
     sort_key timestamp
       (map (\<lambda>(ts, bucket). \<lparr>timestamp = ts, value = fst bucket / snd bucket\<rparr>) buckets)"

text \<open>
  The smoothing loop, with \<open>alpha = 0.35\<close>: the accumulator \<open>ema\<close> starts at
  \<open>daily[0].value\<close> and every step pushes the clamped accumulator.
\<close>

definition alpha :: real where
  "alpha = 0.35"

fun ema_loop :: "ProjectionPoint list \<Rightarrow> real \<Rightarrow> ProjectionPoint list \<Rightarrow> ProjectionPoint list" where
  "ema_loop [] ema smoothed = smoothed"
| "ema_loop (p # rest) ema smoothed =
     (let ema' = alpha * value p + (1 - alpha) * ema
      in ema_loop rest ema' (smoothed @ [\<lparr>timestamp = timestamp p, value = max 0 (min 100 ema')\<rparr>]))"

definition emaSmooth :: "ProjectionPoint list \<Rightarrow> ProjectionPoint list" where
  "emaSmooth daily = ema_loop daily (value (daily ! 0)) []"

definition smoothDaily :: "ProjectionPoint list \<Rightarrow> ProjectionPoint list" where
  "smoothDaily daily = (if length daily \<le> 2 then daily else emaSmooth daily)"

definition trumpApprovalProjection ::
  "(string \<Rightarrow> int option) \<Rightarrow> (string \<Rightarrow> string) \<Rightarrow> int \<Rightarrow> Timeframe \<Rightarrow> TimeRange option
     \<Rightarrow> Poll list option \<Rightarrow> ProjectionPoint list" where
  "trumpApprovalProjection parseDate toLowerCase now timeframe customRange polls =
     smoothDaily (dailyAverages (dayBuckets
       (approvalRaw parseDate toLowerCase (getTimeWindow now timeframe customRange) polls)))"




text \<open>
  Polls for the examples, with the values the two built-ins take on their strings: three
  polls of 1 January 2025 (one of them dated by \<open>end_date\<close>), one of the next day, one
  without an approve answer and one with an unparseable date.
\<close>

definition sampleParseDate :: "string \<Rightarrow> int option" where
  "sampleParseDate s =
     (if s = ''2025-01-01'' then Some 1735689600000
      else if s = ''2025-01-01T12:00:00Z'' then Some 1735732800000
      else if s = ''2025-01-02T06:30:00Z'' then Some 1735799400000
      else None)"

definition sampleLower :: "string \<Rightarrow> string" where
  "sampleLower s =
     (if s = ''Approve'' then ''approve''
      else if s = ''Disapprove'' then ''disapprove''
      else s)"

definition sample_polls :: "Poll list" where
  "sample_polls =
     [\<lparr>date = Some ''2025-01-02T06:30:00Z'', end_date = None,
       answers = Some [\<lparr>choice = Some ''Disapprove'', percent = Some 52\<rparr>,
                       \<lparr>choice = Some ''Approve'', percent = Some 45\<rparr>]\<rparr>,
      \<lparr>date = Some ''2025-01-01'', end_date = None,
       answers = Some [\<lparr>choice = Some ''Approve'', percent = Some 40\<rparr>]\<rparr>,
      \<lparr>date = Some [], end_date = Some ''2025-01-01T12:00:00Z'',
       answers = Some [\<lparr>choice = Some ''approve'', percent = Some 42\<rparr>]\<rparr>,
      \<lparr>date = Some ''2025-01-01T12:00:00Z'', end_date = None,
       answers = Some [\<lparr>choice = Some ''Approve'', percent = Some 44\<rparr>]\<rparr>,
      \<lparr>date = Some ''2025-01-01'', end_date = None,
       answers = Some [\<lparr>choice = Some ''Disapprove'', percent = Some 50\<rparr>]\<rparr>,
      \<lparr>date = Some ''yesterday'', end_date = None,
       answers = Some [\<lparr>choice = Some ''Approve'', percent = Some 99\<rparr>]\<rparr>]"

section \<open>Alignment and clipping\<close>

text \<open>
  \<open>clipPointsToRange\<close>: \<open>null\<close> bounds give the input back; otherwise the points are
  filtered with \<open>p.timestamp >= range.startMs && p.timestamp <= range.endMs\<close>.
\<close>

definition clipPointsToRange ::
  "'a Timestamped_scheme list \<Rightarrow> TimeRange option \<Rightarrow> 'a Timestamped_scheme list" where
  "clipPointsToRange points range' =
     (case range' of
        None \<Rightarrow> points
      | Some r \<Rightarrow> filter (\<lambda>p. timestamp p \<ge> startMs r \<and> timestamp p \<le> endMs r) points)"

text \<open>A small candle history used to exercise the searches on concrete data.\<close>

definition sample_candles :: "Candle list" where
  "sample_candles =
     [\<lparr>timestamp = 1000, open = 0.2, high = 0.4, low = 0.1, close = 0.3, updates = Finite 5\<rparr>,
      \<lparr>timestamp = 2000, open = 0.3, high = 0.6, low = 0.3, close = 0.5, updates = Finite 7\<rparr>,
      \<lparr>timestamp = 3000, open = 0.5, high = 0.8, low = 0.4, close = 0.7, updates = Finite 2\<rparr>]"

section \<open>Properties of the nearest-index search\<close>

lemma nearest_loop_dom_all:
  fixes timestamps :: "'a::linordered_idom list"
  shows "nearest_loop_dom (timestamps, target, lo, hi)"
proof -
  have "All (nearest_loop_dom :: 'a list \<times> 'a \<times> int \<times> int \<Rightarrow> bool)"
    by (relation "measure (\<lambda>(timestamps, target, lo, hi). nat (hi - lo + 1))") auto
  then show ?thesis by simp
qed

lemma nearest_loop_range:
  "lo \<le> hi + 1 \<Longrightarrow>
   (case nearest_loop timestamps target lo hi of
      Found m \<Rightarrow> lo \<le> m \<and> m \<le> hi
    | Exhausted l \<Rightarrow> lo \<le> l \<and> l \<le> hi + 1)"
proof (induction timestamps target lo hi rule: nearest_loop.induct)
  case (1 timestamps target lo hi)
  show ?case
  proof (cases "lo \<le> hi")
    case False
    with "1.prems" show ?thesis by (simp add: nearest_loop.simps[of timestamps target lo hi])
  next
    case True
    define mid where "mid = (lo + hi) div 2"
    have mid: "lo \<le> mid" "mid \<le> hi" using True by (auto simp: mid_def)
    consider (eq) "timestamps ! nat mid = target"
      | (lt) "timestamps ! nat mid \<noteq> target" "timestamps ! nat mid < target"
      | (gt) "timestamps ! nat mid \<noteq> target" "\<not> timestamps ! nat mid < target"
      by blast
    then show ?thesis
    proof cases
      case eq
      with True mid show ?thesis
        by (simp add: nearest_loop.simps[of timestamps target lo hi] mid_def Let_def)
    next
      case lt
      have "case nearest_loop timestamps target (mid + 1) hi of
              Found m \<Rightarrow> mid + 1 \<le> m \<and> m \<le> hi
            | Exhausted l \<Rightarrow> mid + 1 \<le> l \<and> l \<le> hi + 1"
        using "1.IH"(1)[OF True mid_def refl lt] mid by simp
      with True lt mid show ?thesis
        by (simp add: nearest_loop.simps[of timestamps target lo hi] Let_def mid_def[symmetric]
              split: search_exit.splits)
    next
      case gt
      have "case nearest_loop timestamps target lo (mid - 1) of
              Found m \<Rightarrow> lo \<le> m \<and> m \<le> mid - 1
            | Exhausted l \<Rightarrow> lo \<le> l \<and> l \<le> mid - 1 + 1"
        using "1.IH"(2)[OF True mid_def refl gt] mid by simp
      with True gt mid show ?thesis
        by (simp add: nearest_loop.simps[of timestamps target lo hi] Let_def mid_def[symmetric]
              split: search_exit.splits)
    qed
  qed
qed


lemma nearest_loop_sorted:
  assumes "sorted timestamps"
    and "0 \<le> lo" and "hi < int (length timestamps)" and "lo \<le> hi + 1"
    and "\<forall>i < nat lo. timestamps ! i < target"
    and "\<forall>i. nat (hi + 1) \<le> i \<and> i < length timestamps \<longrightarrow> target < timestamps ! i"
  shows "case nearest_loop timestamps target lo hi of
           Found m \<Rightarrow> 0 \<le> m \<and> m < int (length timestamps) \<and> timestamps ! nat m = target
         | Exhausted l \<Rightarrow> 0 \<le> l \<and> l \<le> int (length timestamps) \<and>
             (\<forall>i < nat l. timestamps ! i < target) \<and>
             (\<forall>i. nat l \<le> i \<and> i < length timestamps \<longrightarrow> target < timestamps ! i)"
  using assms
proof (induction timestamps target lo hi rule: nearest_loop.induct)
  case (1 timestamps target lo hi)
  show ?case
  proof (cases "lo \<le> hi")
    case False
    with "1.prems" have "hi + 1 = lo" by simp
    with False "1.prems" show ?thesis
      by (simp add: nearest_loop.simps[of timestamps target lo hi])
  next
    case True
    define mid where "mid = (lo + hi) div 2"
    have mid: "lo \<le> mid" "mid \<le> hi" using True by (auto simp: mid_def)
    have mid_len: "nat mid < length timestamps" using mid "1.prems" by simp
    consider (eq) "timestamps ! nat mid = target"
      | (lt) "timestamps ! nat mid \<noteq> target" "timestamps ! nat mid < target"
      | (gt) "timestamps ! nat mid \<noteq> target" "\<not> timestamps ! nat mid < target"
      by blast
    then show ?thesis
    proof cases
      case eq
      with True mid "1.prems" show ?thesis
        by (simp add: nearest_loop.simps[of timestamps target lo hi] mid_def Let_def)
    next
      case lt
      have below: "\<forall>i < nat (mid + 1). timestamps ! i < target"
      proof (intro allI impI)
        fix i assume "i < nat (mid + 1)"
        then have "i \<le> nat mid" using mid "1.prems" by simp
        then have "timestamps ! i \<le> timestamps ! nat mid"
          using \<open>sorted timestamps\<close> mid_len by (simp add: sorted_nth_mono)
        with lt show "timestamps ! i < target" by simp
      qed
      have "case nearest_loop timestamps target (mid + 1) hi of
           Found m \<Rightarrow> 0 \<le> m \<and> m < int (length timestamps) \<and> timestamps ! nat m = target
         | Exhausted l \<Rightarrow> 0 \<le> l \<and> l \<le> int (length timestamps) \<and>
             (\<forall>i < nat l. timestamps ! i < target) \<and>
             (\<forall>i. nat l \<le> i \<and> i < length timestamps \<longrightarrow> target < timestamps ! i)"
        using "1.IH"(1)[OF True mid_def refl lt] mid "1.prems" below by simp
      with True lt show ?thesis
        by (simp add: nearest_loop.simps[of timestamps target lo hi] mid_def[symmetric])
    next
      case gt
      have above: "\<forall>i. nat (mid - 1 + 1) \<le> i \<and> i < length timestamps \<longrightarrow> target < timestamps ! i"
      proof (intro allI impI)
        fix i assume i: "nat (mid - 1 + 1) \<le> i \<and> i < length timestamps"
        then have "timestamps ! nat mid \<le> timestamps ! i"
          using \<open>sorted timestamps\<close> by (simp add: sorted_nth_mono)
        with gt show "target < timestamps ! i" by simp
      qed
      have "case nearest_loop timestamps target lo (mid - 1) of
           Found m \<Rightarrow> 0 \<le> m \<and> m < int (length timestamps) \<and> timestamps ! nat m = target
         | Exhausted l \<Rightarrow> 0 \<le> l \<and> l \<le> int (length timestamps) \<and>
             (\<forall>i < nat l. timestamps ! i < target) \<and>
             (\<forall>i. nat l \<le> i \<and> i < length timestamps \<longrightarrow> target < timestamps ! i)"
        using "1.IH"(2)[OF True mid_def refl gt] mid "1.prems"(1-5) above by simp
      with True gt show ?thesis
        by (simp add: nearest_loop.simps[of timestamps target lo hi] mid_def[symmetric])
    qed
  qed
qed

text \<open>What the search has established when it is started on the whole of a sorted list.\<close>

lemma nearest_loop_whole:
  assumes "sorted timestamps"
  shows "case nearest_loop timestamps target 0 (int (length timestamps) - 1) of
           Found m \<Rightarrow> 0 \<le> m \<and> m < int (length timestamps) \<and> timestamps ! nat m = target
         | Exhausted l \<Rightarrow> 0 \<le> l \<and> l \<le> int (length timestamps) \<and>
             (\<forall>i < nat l. timestamps ! i < target) \<and>
             (\<forall>i. nat l \<le> i \<and> i < length timestamps \<longrightarrow> target < timestamps ! i)"
  by (rule nearest_loop_sorted) (use assms in auto)


text \<open>
  C9. For every non-empty list of timestamps, sorted or not, and every target the index
  returned by \<open>nearestIndexByTimestamp\<close> lies between \<open>0\<close> and \<open>length - 1\<close>, so that
  reading the list there is in bounds; and the binary-search loop terminates on every
  input: every argument tuple is in the accessible part of its call relation.
\<close>

theorem nearestIndex_in_bounds:
  "nearest_loop_dom (timestamps, target, lo, hi) \<and>
   (timestamps \<noteq> [] \<longrightarrow>
      0 \<le> nearestIndexByTimestamp timestamps target \<and>
      nearestIndexByTimestamp timestamps target \<le> int (length timestamps) - 1)"
proof (intro conjI impI)
  show "nearest_loop_dom (timestamps, target, lo, hi)"
    by (rule nearest_loop_dom_all)
next
  assume ne: "timestamps \<noteq> []"
  then have len: "0 < length timestamps" by simp
  have rng: "case nearest_loop timestamps target 0 (int (length timestamps) - 1) of
               Found m \<Rightarrow> 0 \<le> m \<and> m \<le> int (length timestamps) - 1
             | Exhausted l \<Rightarrow> 0 \<le> l \<and> l \<le> int (length timestamps) - 1 + 1"
    by (rule nearest_loop_range) simp
  from rng len show "0 \<le> nearestIndexByTimestamp timestamps target"
    by (auto simp: nearestIndexByTimestamp_def split: search_exit.splits)
  from rng len show "nearestIndexByTimestamp timestamps target \<le> int (length timestamps) - 1"
    by (auto simp: nearestIndexByTimestamp_def split: search_exit.splits)
qed

theorem nearestIndex_in_bounds_witness:
  "nearest_loop_dom ([30, 10, 20], 15 :: int, 0, 2) \<and>
   [30, 10, 20] \<noteq> ([] :: int list) \<and>
   nearestIndexByTimestamp [30, 10, 20] (15 :: int) = 1 \<and>
   0 \<le> nearestIndexByTimestamp [30, 10, 20] (15 :: int) \<and>
   nearestIndexByTimestamp [30, 10, 20] (15 :: int) \<le> int (length [30, 10, 20 :: int]) - 1"
proof -
  have ne: "[30, 10, 20] \<noteq> ([] :: int list)" by simp
  note inst = nearestIndex_in_bounds[of "[30, 10, 20]" "15 :: int" 0 2]
  note bounds = inst[THEN conjunct2, THEN mp, OF ne]
  show ?thesis
  proof (intro conjI)
    show "nearest_loop_dom ([30, 10, 20], 15 :: int, 0, 2)" by (rule inst[THEN conjunct1])
    show "[30, 10, 20] \<noteq> ([] :: int list)" by (rule ne)
    show "nearestIndexByTimestamp [30, 10, 20] (15 :: int) = 1" by code_simp
    show "0 \<le> nearestIndexByTimestamp [30, 10, 20] (15 :: int)" by (rule bounds[THEN conjunct1])
    show "nearestIndexByTimestamp [30, 10, 20] (15 :: int) \<le> int (length [30, 10, 20 :: int]) - 1"
      by (rule bounds[THEN conjunct2])
  qed
qed

text \<open>
  C6. On a non-empty list of timestamps sorted ascending, \<open>nearestIndexByTimestamp\<close>
  returns an index \<open>i\<close> of the list such that no index \<open>j\<close> is strictly nearer to the target:
  no \<open>j\<close> has \<open>|S[j] - T| < |S[i] - T|\<close>.
\<close>

theorem nearestIndex_is_nearest:
  assumes "timestamps \<noteq> []" and "sorted timestamps"
  shows "\<exists>i < length timestamps.
           nearestIndexByTimestamp timestamps target = int i \<and>
           \<not> (\<exists>j < length timestamps.
                 \<bar>timestamps ! j - target\<bar> < \<bar>timestamps ! i - target\<bar>)"
proof -
  let ?n = "length timestamps"
  have len: "0 < ?n" using assms(1) by simp
  then have nm1: "int (?n - 1) = int ?n - 1" by arith
  note inv = nearest_loop_whole[OF assms(2), of target]
  show ?thesis
  proof (cases "nearest_loop timestamps target 0 (int ?n - 1)")
    case (Found m)
    with inv have m: "0 \<le> m" "m < int ?n" "timestamps ! nat m = target" by simp_all
    have "nearestIndexByTimestamp timestamps target = int (nat m)"
      using Found len m by (simp add: nearestIndexByTimestamp_def)
    moreover have "nat m < ?n" using m by simp
    ultimately show ?thesis using m(3) by (intro exI[of _ "nat m"]) simp
  next
    case (Exhausted l)
    with inv have l: "0 \<le> l" "l \<le> int ?n"
      and below: "\<And>i. i < nat l \<Longrightarrow> timestamps ! i < target"
      and above: "\<And>i. nat l \<le> i \<Longrightarrow> i < ?n \<Longrightarrow> target < timestamps ! i"
      by simp_all
    consider (first) "l \<le> 0" | (last) "0 < l" "int ?n \<le> l" | (mid) "0 < l" "l < int ?n"
      by linarith
    then show ?thesis
    proof cases
      case first
      then have r: "nearestIndexByTimestamp timestamps target = int 0"
        using Exhausted len by (simp add: nearestIndexByTimestamp_def)
      have "\<not> (\<exists>j < ?n. \<bar>timestamps ! j - target\<bar> < \<bar>timestamps ! 0 - target\<bar>)"
      proof
        assume "\<exists>j < ?n. \<bar>timestamps ! j - target\<bar> < \<bar>timestamps ! 0 - target\<bar>"
        then obtain j where j: "j < ?n" "\<bar>timestamps ! j - target\<bar> < \<bar>timestamps ! 0 - target\<bar>"
          by blast
        have "timestamps ! 0 \<le> timestamps ! j"
          using assms(2) j(1) by (simp add: sorted_nth_mono)
        moreover have "target < timestamps ! 0" using above[of 0] first l len by simp
        ultimately show False using j(2) by linarith
      qed
      with r len show ?thesis by blast
    next
      case last
      with l have le: "l = int ?n" by simp
      then have r: "nearestIndexByTimestamp timestamps target = int (?n - 1)"
        using Exhausted len nm1 by (simp add: nearestIndexByTimestamp_def)
      have "\<not> (\<exists>j < ?n. \<bar>timestamps ! j - target\<bar> < \<bar>timestamps ! (?n - 1) - target\<bar>)"
      proof
        assume "\<exists>j < ?n. \<bar>timestamps ! j - target\<bar> < \<bar>timestamps ! (?n - 1) - target\<bar>"
        then obtain j where j: "j < ?n"
          "\<bar>timestamps ! j - target\<bar> < \<bar>timestamps ! (?n - 1) - target\<bar>"
          by blast
        have "timestamps ! j \<le> timestamps ! (?n - 1)"
          using assms(2) j(1) len by (simp add: sorted_nth_mono)
        moreover have "timestamps ! (?n - 1) < target" using below[of "?n - 1"] le len by simp
        ultimately show False using j(2) by linarith
      qed
      moreover have "?n - 1 < ?n" using len by simp
      ultimately show ?thesis using r by blast
    next
      case mid
      define k where "k = nat l"
      have k: "0 < k" "k < ?n" "l = int k" using mid by (simp_all add: k_def)
      have nl: "nat l = k" by (simp add: k_def)
      have lo1: "timestamps ! (k - 1) < target" using below[of "k - 1"] k(1) nl by simp
      have hi1: "target < timestamps ! k" using above[of k] k(2) nl by simp
      have far_below: "timestamps ! j \<le> timestamps ! (k - 1)" if "j < k" for j
        using assms(2) that k by (simp add: sorted_nth_mono)
      have far_above: "timestamps ! k \<le> timestamps ! j" if "k \<le> j" "j < ?n" for j
        using assms(2) that by (simp add: sorted_nth_mono)
      have idx: "nat (l - 1) = k - 1" using k by simp
      have km1: "int (k - 1) = int k - 1" using k(1) by arith
      show ?thesis
      proof (cases "\<bar>timestamps ! k - target\<bar> < \<bar>timestamps ! (k - 1) - target\<bar>")
        case True
        then have r: "nearestIndexByTimestamp timestamps target = int k"
          using Exhausted len mid k idx by (simp add: nearestIndexByTimestamp_def)
        have "\<not> (\<exists>j < ?n. \<bar>timestamps ! j - target\<bar> < \<bar>timestamps ! k - target\<bar>)"
        proof
          assume "\<exists>j < ?n. \<bar>timestamps ! j - target\<bar> < \<bar>timestamps ! k - target\<bar>"
          then obtain j where j: "j < ?n" "\<bar>timestamps ! j - target\<bar> < \<bar>timestamps ! k - target\<bar>"
            by blast
          show False
          proof (cases "j < k")
            case True
            from far_below[OF True] lo1 hi1 j(2) \<open>\<bar>timestamps ! k - target\<bar> < \<bar>timestamps ! (k - 1) - target\<bar>\<close>
            show False by linarith
          next
            case False
            then have "k \<le> j" by simp
            from far_above[OF this j(1)] hi1 j(2) show False by linarith
          qed
        qed
        with r k(2) show ?thesis by blast
      next
        case False
        then have r: "nearestIndexByTimestamp timestamps target = int (k - 1)"
          using Exhausted len mid k idx km1 by (simp add: nearestIndexByTimestamp_def)
        have "\<not> (\<exists>j < ?n. \<bar>timestamps ! j - target\<bar> < \<bar>timestamps ! (k - 1) - target\<bar>)"
        proof
          assume "\<exists>j < ?n. \<bar>timestamps ! j - target\<bar> < \<bar>timestamps ! (k - 1) - target\<bar>"
          then obtain j where j: "j < ?n"
            "\<bar>timestamps ! j - target\<bar> < \<bar>timestamps ! (k - 1) - target\<bar>"
            by blast
          show False
          proof (cases "j < k")
            case True
            from far_below[OF True] lo1 j(2) show False by linarith
          next
            case ge: False
            then have "k \<le> j" by simp
            from far_above[OF this j(1)] lo1 hi1 j(2) False show False by linarith
          qed
        qed
        moreover have "k - 1 < ?n" using k by simp
        ultimately show ?thesis using r by blast
      qed
    qed
  qed
qed


theorem nearestIndex_is_nearest_witness:
  "[10, 20, 40] \<noteq> ([] :: int list) \<and> sorted [10, 20, 40 :: int] \<and>
   nearestIndexByTimestamp [10, 20, 40] (33 :: int) = 2 \<and>
   (\<exists>i < length [10, 20, 40 :: int].
      nearestIndexByTimestamp [10, 20, 40] (33 :: int) = int i \<and>
      \<not> (\<exists>j < length [10, 20, 40 :: int].
            \<bar>[10, 20, 40] ! j - 33\<bar> < \<bar>[10, 20, 40] ! i - (33 :: int)\<bar>))"
proof (intro conjI)
  show ne: "[10, 20, 40] \<noteq> ([] :: int list)" by simp
  show srt: "sorted [10, 20, 40 :: int]" by simp
  show "nearestIndexByTimestamp [10, 20, 40] (33 :: int) = 2" by code_simp
  show "\<exists>i < length [10, 20, 40 :: int].
      nearestIndexByTimestamp [10, 20, 40] (33 :: int) = int i \<and>
      \<not> (\<exists>j < length [10, 20, 40 :: int].
            \<bar>[10, 20, 40] ! j - 33\<bar> < \<bar>[10, 20, 40] ! i - (33 :: int)\<bar>)"
    using ne srt by (rule nearestIndex_is_nearest)
qed

text \<open>
  C1 (as stated, refuted). The final comparison is
  \<open>abs(ts[lo] - target) < abs(ts[lo - 1] - target) ? lo : lo - 1\<close>: on an exact tie the strict
  test fails and the function returns \<open>lo - 1\<close>, the earlier index. For timestamps \<open>[0, 2]\<close>
  and target \<open>1\<close> both elements are at distance \<open>1\<close> and the result is index \<open>0\<close>, not \<open>1\<close>.
\<close>

theorem nearestIndex_tie_later_counterexample:
  "sorted_wrt (<) [0, 2 :: int] \<and>
   \<bar>[0, 2] ! 0 - 1\<bar> = \<bar>[0, 2] ! 1 - (1 :: int)\<bar> \<and>
   nearestIndexByTimestamp [0, 2] (1 :: int) = 0 \<and>
   nearestIndexByTimestamp [0, 2] (1 :: int) \<noteq> 1"
proof -
  have "nearestIndexByTimestamp [0, 2] (1 :: int) = 0" by code_simp
  then show ?thesis by simp
qed

lemma nearestIndex_fractional_tie_example:
  "nearestIndexByTimestamp [1000, 2001] (1500.5 :: real) = 0 \<and>
   nearestIndexByTimestamp [1000, 2001] (1500.6 :: real) = 1"
  by code_simp

text \<open>
  C1 (amended). For every list of timestamps sorted strictly ascending and every target
  from which two adjacent elements are exactly equidistant, \<open>nearestIndexByTimestamp\<close>
  returns the earlier (lower) index of the tied pair.
\<close>

theorem nearestIndex_tie_earlier:
  assumes "sorted_wrt (<) timestamps"
    and "Suc i < length timestamps"
    and "\<bar>timestamps ! i - target\<bar> = \<bar>timestamps ! Suc i - target\<bar>"
  shows "nearestIndexByTimestamp timestamps target = int i"
proof -
  let ?n = "length timestamps"
  have srt: "sorted timestamps"
    using assms(1) by (simp add: sorted_wrt_mono_rel[of _ "(<)" "(\<le>)"])
  have "timestamps ! i < timestamps ! Suc i"
    using assms(1,2) by (simp add: sorted_wrt_nth_less)
  with assms(3) have lo1: "timestamps ! i < target" and hi1: "target < timestamps ! Suc i"
    by linarith+
  have len: "0 < ?n" using assms(2) by (cases timestamps) simp_all
  note inv = nearest_loop_whole[OF srt, of target]
  show ?thesis
  proof (cases "nearest_loop timestamps target 0 (int ?n - 1)")
    case (Found m)
    with inv have m: "0 \<le> m" "m < int ?n" "timestamps ! nat m = target" by simp_all
    show ?thesis
    proof (cases "nat m \<le> i")
      case True
      then have "timestamps ! nat m \<le> timestamps ! i"
        using srt assms(2) by (simp add: sorted_nth_mono)
      with m(3) lo1 show ?thesis by simp
    next
      case False
      then have "Suc i \<le> nat m" "nat m < ?n" using m by simp_all
      with srt have "timestamps ! Suc i \<le> timestamps ! nat m"
        by (simp add: sorted_nth_mono)
      with m(3) hi1 show ?thesis by simp
    qed
  next
    case (Exhausted l)
    with inv have l: "0 \<le> l" "l \<le> int ?n"
      and below: "\<And>j. j < nat l \<Longrightarrow> timestamps ! j < target"
      and above: "\<And>j. nat l \<le> j \<Longrightarrow> j < ?n \<Longrightarrow> target < timestamps ! j"
      by simp_all
    have "i < nat l"
    proof (rule ccontr)
      assume "\<not> i < nat l"
      then have "target < timestamps ! i" using above[of i] assms(2) by simp
      with lo1 show False by simp
    qed
    moreover have "\<not> Suc i < nat l"
    proof
      assume "Suc i < nat l"
      from below[OF this] hi1 show False by simp
    qed
    ultimately have nl: "nat l = Suc i" by simp
    then have leq: "l = int i + 1" using l by linarith
    have idx: "nat (int i + 1) = Suc i" "nat (int i + 1 - 1) = i" by simp_all
    have "\<not> \<bar>timestamps ! Suc i - target\<bar> < \<bar>timestamps ! i - target\<bar>"
      using assms(3) by simp
    then show ?thesis
      using Exhausted len leq assms(2) idx
      by (simp add: nearestIndexByTimestamp_def)
  qed
qed

theorem nearestIndex_tie_earlier_witness:
  "sorted_wrt (<) [10, 20, 30, 50 :: int] \<and>
   Suc 2 < length [10, 20, 30, 50 :: int] \<and>
   \<bar>[10, 20, 30, 50] ! 2 - 40\<bar> = \<bar>[10, 20, 30, 50] ! Suc 2 - (40 :: int)\<bar> \<and>
   nearestIndexByTimestamp [10, 20, 30, 50] (40 :: int) = int 2"
proof (intro conjI)
  show a: "sorted_wrt (<) [10, 20, 30, 50 :: int]" by simp
  show b: "Suc 2 < length [10, 20, 30, 50 :: int]" by simp
  show c: "\<bar>[10, 20, 30, 50] ! 2 - 40\<bar> = \<bar>[10, 20, 30, 50] ! Suc 2 - (40 :: int)\<bar>" by simp
  show "nearestIndexByTimestamp [10, 20, 30, 50] (40 :: int) = int 2"
    using a b c by (rule nearestIndex_tie_earlier)
qed

section \<open>Properties of the at-or-before search\<close>

lemma close_loop_sorted:
  assumes "sorted (map timestamp cs)"
    and "0 \<le> lo" and "hi < int (length cs)" and "lo \<le> hi + 1" and "best = lo - 1"
    and "\<forall>i < nat lo. timestamp (cs ! i) \<le> targetTs"
    and "\<forall>i. nat (hi + 1) \<le> i \<and> i < length cs \<longrightarrow> targetTs < timestamp (cs ! i)"
  shows "- 1 \<le> close_loop cs targetTs lo hi best \<and>
         close_loop cs targetTs lo hi best < int (length cs) \<and>
         (\<forall>i < nat (close_loop cs targetTs lo hi best + 1).
            timestamp (cs ! i) \<le> targetTs) \<and>
         (\<forall>i. nat (close_loop cs targetTs lo hi best + 1) \<le> i \<and> i < length cs
            \<longrightarrow> targetTs < timestamp (cs ! i))"
  using assms
proof (induction cs targetTs lo hi best rule: close_loop.induct)
  case (1 cs targetTs lo hi best)
  have mono: "timestamp (cs ! i) \<le> timestamp (cs ! j)"
    if "i \<le> j" "j < length cs" for i j
    using sorted_nth_mono[OF \<open>sorted (map timestamp cs)\<close>, of i j] that by simp
  show ?case
  proof (cases "lo \<le> hi")
    case False
    with "1.prems" have "hi + 1 = lo" by simp
    with False "1.prems" show ?thesis
      by (simp add: close_loop.simps[of cs targetTs lo hi])
  next
    case True
    define mid where "mid = (lo + hi) div 2"
    have mid: "lo \<le> mid" "mid \<le> hi" using True by (auto simp: mid_def)
    have mid_len: "nat mid < length cs" using mid "1.prems" by simp
    show ?thesis
    proof (cases "timestamp (cs ! nat mid) \<le> targetTs")
      case le: True
      have below: "\<forall>i < nat (mid + 1). timestamp (cs ! i) \<le> targetTs"
      proof (intro allI impI)
        fix i assume "i < nat (mid + 1)"
        then have "i \<le> nat mid" using mid "1.prems" by simp
        from mono[OF this mid_len] le show "timestamp (cs ! i) \<le> targetTs" by simp
      qed
      have "- 1 \<le> close_loop cs targetTs (mid + 1) hi mid \<and>
         close_loop cs targetTs (mid + 1) hi mid < int (length cs) \<and>
         (\<forall>i < nat (close_loop cs targetTs (mid + 1) hi mid + 1).
            timestamp (cs ! i) \<le> targetTs) \<and>
         (\<forall>i. nat (close_loop cs targetTs (mid + 1) hi mid + 1) \<le> i \<and> i < length cs
            \<longrightarrow> targetTs < timestamp (cs ! i))"
        using "1.IH"(1)[OF True mid_def le] mid "1.prems" below by simp
      with True le show ?thesis
        by (simp add: close_loop.simps[of cs targetTs lo hi] mid_def[symmetric])
    next
      case gt: False
      have above: "\<forall>i. nat (mid - 1 + 1) \<le> i \<and> i < length cs
                     \<longrightarrow> targetTs < timestamp (cs ! i)"
      proof (intro allI impI)
        fix i assume i: "nat (mid - 1 + 1) \<le> i \<and> i < length cs"
        then have "nat mid \<le> i" "i < length cs" by simp_all
        from mono[OF this] gt show "targetTs < timestamp (cs ! i)" by simp
      qed
      have "- 1 \<le> close_loop cs targetTs lo (mid - 1) best \<and>
         close_loop cs targetTs lo (mid - 1) best < int (length cs) \<and>
         (\<forall>i < nat (close_loop cs targetTs lo (mid - 1) best + 1).
            timestamp (cs ! i) \<le> targetTs) \<and>
         (\<forall>i. nat (close_loop cs targetTs lo (mid - 1) best + 1) \<le> i \<and> i < length cs
            \<longrightarrow> targetTs < timestamp (cs ! i))"
        using "1.IH"(2)[OF True mid_def gt] mid "1.prems"(1-6) above by simp
      with True gt show ?thesis
        by (simp add: close_loop.simps[of cs targetTs lo hi] mid_def[symmetric])
    qed
  qed
qed


text \<open>
  C5. On a candle list \<open>cs\<close> sorted ascending by timestamp, \<open>findCloseAtOrBefore\<close> returns
  \<open>null\<close> exactly when no candle has a timestamp at or before the target; otherwise it
  returns the close of a candle whose timestamp is the greatest one at or before the
  target (the rightmost such candle of the list).
\<close>

theorem findCloseAtOrBefore_spec:
  assumes "sorted (map timestamp cs)"
  shows "(findCloseAtOrBefore cs targetTs = None \<longleftrightarrow>
            \<not> (\<exists>c \<in> set cs. timestamp c \<le> targetTs)) \<and>
         ((\<exists>c \<in> set cs. timestamp c \<le> targetTs) \<longrightarrow>
            (\<exists>i < length cs.
               findCloseAtOrBefore cs targetTs = Some (close (cs ! i)) \<and>
               timestamp (cs ! i) \<le> targetTs \<and>
               (\<forall>j < length cs. timestamp (cs ! j) \<le> targetTs \<longrightarrow>
                  j \<le> i \<and> timestamp (cs ! j) \<le> timestamp (cs ! i))))"
proof -
  let ?n = "length cs"
  define b where "b = close_loop cs targetTs 0 (int ?n - 1) (- 1)"
  have inv: "- 1 \<le> b \<and> b < int ?n \<and>
             (\<forall>i < nat (b + 1). timestamp (cs ! i) \<le> targetTs) \<and>
             (\<forall>i. nat (b + 1) \<le> i \<and> i < ?n \<longrightarrow> targetTs < timestamp (cs ! i))"
    unfolding b_def by (rule close_loop_sorted) (use assms in auto)
  then have b: "- 1 \<le> b" "b < int ?n"
    and below: "\<And>i. i < nat (b + 1) \<Longrightarrow> timestamp (cs ! i) \<le> targetTs"
    and above: "\<And>i. nat (b + 1) \<le> i \<Longrightarrow> i < ?n \<Longrightarrow> targetTs < timestamp (cs ! i)"
    by simp_all
  have res: "findCloseAtOrBefore cs targetTs =
               (if ?n = 0 \<or> b < 0 then None else Some (close (cs ! nat b)))"
    by (simp add: findCloseAtOrBefore_def b_def Let_def)
  have mono: "timestamp (cs ! i) \<le> timestamp (cs ! j)" if "i \<le> j" "j < ?n" for i j
    using sorted_nth_mono[OF assms, of i j] that by simp
  show ?thesis
  proof (cases "?n = 0 \<or> b < 0")
    case True
    have "\<not> (\<exists>c \<in> set cs. timestamp c \<le> targetTs)"
    proof
      assume "\<exists>c \<in> set cs. timestamp c \<le> targetTs"
      then obtain j where j: "j < ?n" "timestamp (cs ! j) \<le> targetTs"
        by (auto simp: in_set_conv_nth)
      with True b have "nat (b + 1) \<le> j" by auto
      from above[OF this j(1)] j(2) show False by simp
    qed
    with True res show ?thesis by simp
  next
    case False
    then have nb: "nat b < ?n" "0 \<le> b" using b by auto
    have at: "timestamp (cs ! nat b) \<le> targetTs"
      using below[of "nat b"] nb by simp
    have best: "j \<le> nat b \<and> timestamp (cs ! j) \<le> timestamp (cs ! nat b)"
      if "j < ?n" "timestamp (cs ! j) \<le> targetTs" for j
    proof -
      have "\<not> nat (b + 1) \<le> j" using above[of j] that by auto
      then have "j \<le> nat b" using nb by simp
      with mono[OF this nb(1)] show ?thesis by simp
    qed
    have "cs ! nat b \<in> set cs" using nb(1) by simp
    with at have ex: "\<exists>c \<in> set cs. timestamp c \<le> targetTs" by blast
    have "findCloseAtOrBefore cs targetTs = Some (close (cs ! nat b))"
      using res False by simp
    with nb(1) at best ex show ?thesis by auto
  qed
qed


theorem findCloseAtOrBefore_spec_witness:
  "sorted (map timestamp sample_candles) \<and>
   (\<exists>c \<in> set sample_candles. timestamp c \<le> 2500) \<and>
   findCloseAtOrBefore sample_candles 2500 = Some 0.5 \<and>
   findCloseAtOrBefore sample_candles 999 = None \<and>
   (\<exists>i < length sample_candles.
      findCloseAtOrBefore sample_candles 2500 = Some (close (sample_candles ! i)) \<and>
      timestamp (sample_candles ! i) \<le> 2500 \<and>
      (\<forall>j < length sample_candles. timestamp (sample_candles ! j) \<le> 2500 \<longrightarrow>
         j \<le> i \<and> timestamp (sample_candles ! j) \<le> timestamp (sample_candles ! i)))"
proof (intro conjI)
  show srt: "sorted (map timestamp sample_candles)" by (simp add: sample_candles_def)
  show ex: "\<exists>c \<in> set sample_candles. timestamp c \<le> 2500" by (simp add: sample_candles_def)
  show "findCloseAtOrBefore sample_candles 2500 = Some 0.5"
    by (simp add: findCloseAtOrBefore_def sample_candles_def close_loop.simps)
  show "findCloseAtOrBefore sample_candles 999 = None"
    by (simp add: findCloseAtOrBefore_def sample_candles_def close_loop.simps)
  show "\<exists>i < length sample_candles.
      findCloseAtOrBefore sample_candles 2500 = Some (close (sample_candles ! i)) \<and>
      timestamp (sample_candles ! i) \<le> 2500 \<and>
      (\<forall>j < length sample_candles. timestamp (sample_candles ! j) \<le> 2500 \<longrightarrow>
         j \<le> i \<and> timestamp (sample_candles ! j) \<le> timestamp (sample_candles ! i))"
    using findCloseAtOrBefore_spec[OF srt, of 2500, THEN conjunct2, THEN mp, OF ex] .
qed


section \<open>Properties of clipping\<close>

text \<open>
  C8. With \<open>null\<close> bounds \<open>clipPointsToRange\<close> is the identity. With bounds
  \<open>{startMs, endMs}\<close> it returns exactly the points with
  \<open>startMs \<le> timestamp \<le> endMs\<close>, both ends included: the result is a subsequence
  of the input (the original order is kept), every point in range is kept with its
  multiplicity, and no other point is.
\<close>

theorem clipPointsToRange_spec:
  "clipPointsToRange points None = points \<and>
   clipPointsToRange points (Some r) =
     filter (\<lambda>p. startMs r \<le> timestamp p \<and> timestamp p \<le> endMs r) points \<and>
   subseq (clipPointsToRange points (Some r)) points \<and>
   mset (clipPointsToRange points (Some r)) =
     filter_mset (\<lambda>p. startMs r \<le> timestamp p \<and> timestamp p \<le> endMs r) (mset points) \<and>
   set (clipPointsToRange points (Some r)) =
     {p. p \<in> set points \<and> startMs r \<le> timestamp p \<and> timestamp p \<le> endMs r}"
  by (auto simp: clipPointsToRange_def)

lemma clipPointsToRange_example:
  "clipPointsToRange
     [\<lparr>timestamp = 5, value = 1\<rparr>, \<lparr>timestamp = 10, value = 2\<rparr>, \<lparr>timestamp = 7, value = 3\<rparr>,
      \<lparr>timestamp = 20, value = 4\<rparr>, \<lparr>timestamp = 21, value = 5\<rparr>]
     (Some \<lparr>startMs = 7, endMs = 20\<rparr>) =
   [\<lparr>timestamp = 10, value = 2\<rparr>, \<lparr>timestamp = 7, value = 3\<rparr>, \<lparr>timestamp = 20, value = 4\<rparr>]"
  by (simp add: clipPointsToRange_def)


section \<open>Properties of the normalizer\<close>

lemma normalizeCandlestick_None_iff:
  assumes "nullish (price c) (yes_bid c) = Some f"
  shows "normalizeCandlestick toNumber c = None \<longleftrightarrow>
           (\<exists>k. resolved toNumber k f = None) \<or> end_period_ts c = None"
proof -
  have "(\<exists>k. resolved toNumber k f = None) \<longleftrightarrow>
          resolved toNumber Open f = None \<or> resolved toNumber High f = None \<or>
          resolved toNumber Low f = None \<or> resolved toNumber Close f = None"
    by (metis ohlc.exhaust)
  then show ?thesis
    using assms by (simp add: normalizeCandlestick_def resolved_def Let_def)
qed

lemma normalizeCandlestick_component:
  assumes "nullish (price c) (yes_bid c) = Some f"
    and "normalizeCandlestick toNumber c = Some cd"
  shows "resolved toNumber k f = Some (component k cd)"
  using assms
  by (cases k) (auto simp: normalizeCandlestick_def resolved_def Let_def split: if_splits)

lemma normalizeCandles_dropped:
  assumes "normalizeCandlestick toNumber c = None"
  shows "resp_candles (normalizeCandles toNumber
           (Provider \<lparr>resp_ticker = t, candlesticks = Some (xs @ [c] @ ys)\<rparr>) m) =
         resp_candles (normalizeCandles toNumber
           (Provider \<lparr>resp_ticker = t, candlesticks = Some (xs @ ys)\<rparr>) m)"
  using assms by (simp add: normalizeCandles_def List.map_filter_def)

lemma resolved_malformed:
  assumes "dollars_of k f = Some s" and "\<forall>n. toNumber s \<noteq> Finite n"
  shows "resolved toNumber k f = cents_to_dollars (cents_of k f)"
  using assms by (cases "toNumber s") (simp_all add: resolved_def parseDollar_def nullish_def)

lemma resolved_finite:
  assumes "dollars_of k f = Some s" and "toNumber s = Finite v"
  shows "resolved toNumber k f = Some v"
  using assms by (simp add: resolved_def parseDollar_def nullish_def)


lemmas sample_simps =
  normalizeCandlestick_def normalizeCandles_def parseDollar_def nullish_def
  cents_to_dollars_def sampleNumber_def sample_stick_def sample_field_def
  List.map_filter_def Let_def

text \<open>
  C2 (as stated, refuted). \<open>parseDollar\<close> turns a non-finite parse into \<open>null\<close>, and
  \<open>??\<close> then falls back to the integer-cents field, so no \<open>NaN\<close> reaches the null
  check. A candlestick whose \<open>open_dollars\<close> is the malformed string \<open>n/a\<close> and whose
  \<open>open\<close> is \<open>10\<close> cents is kept, with open \<open>0.10\<close>.
\<close>

theorem malformed_dollar_dropped_counterexample:
  "dollars_of Open (sample_field\<lparr>open_dollars := Some ''n/a''\<rparr>) = Some ''n/a'' \<and>
   sampleNumber ''n/a'' = NaN \<and>
   cents_of Open (sample_field\<lparr>open_dollars := Some ''n/a''\<rparr>) = Some 10 \<and>
   resp_candles (normalizeCandles sampleNumber
     (Provider \<lparr>resp_ticker = Some ''KXTEST-26'',
                candlesticks = Some [sample_stick (sample_field\<lparr>open_dollars := Some ''n/a''\<rparr>)]\<rparr>)
     ''M'') =
   [\<lparr>timestamp = 1700000000000, open = 0.1, high = 0.47, low = 0.43, close = 0.45,
     updates = Finite 12\<rparr>]"
  by (simp add: sample_simps)

text \<open>
  C2 (amended). For every provider candlestick whose decimal-string dollar field of an
  OHLC component is a malformed numeric string (it converts to no finite number),
  \<open>parseDollar\<close> yields \<open>null\<close> for it and the component falls back to the integer-cents
  field. If that component has no integer-cents field the candlestick is dropped from the
  normalized output. If it has one, the candlestick is dropped only when another
  component or the period timestamp is missing, and the normalized component is the cents
  value divided by 100.
\<close>

theorem malformed_dollar_falls_back:
  assumes "nullish (price c) (yes_bid c) = Some f"
    and "dollars_of k f = Some s"
    and "\<forall>n. toNumber s \<noteq> Finite n"
  shows "parseDollar toNumber (dollars_of k f) = None \<and>
         (cents_of k f = None \<longrightarrow>
            normalizeCandlestick toNumber c = None \<and>
            resp_candles (normalizeCandles toNumber
              (Provider \<lparr>resp_ticker = t, candlesticks = Some (xs @ [c] @ ys)\<rparr>) m) =
            resp_candles (normalizeCandles toNumber
              (Provider \<lparr>resp_ticker = t, candlesticks = Some (xs @ ys)\<rparr>) m)) \<and>
         (\<forall>n. cents_of k f = Some n \<longrightarrow>
            (normalizeCandlestick toNumber c = None \<longleftrightarrow>
               (\<exists>k'. k' \<noteq> k \<and> resolved toNumber k' f = None) \<or> end_period_ts c = None) \<and>
            (\<forall>cd. normalizeCandlestick toNumber c = Some cd \<longrightarrow> component k cd = n / 100))"
proof (intro conjI allI impI)
  show "parseDollar toNumber (dollars_of k f) = None"
    using assms(2,3) by (cases "toNumber s") (simp_all add: parseDollar_def)
next
  assume "cents_of k f = None"
  then have "resolved toNumber k f = None"
    using resolved_malformed[where toNumber = toNumber, OF assms(2,3)] by (simp add: cents_to_dollars_def)
  then show none: "normalizeCandlestick toNumber c = None"
    using normalizeCandlestick_None_iff[OF assms(1)] by blast
  then show "resp_candles (normalizeCandles toNumber
              (Provider \<lparr>resp_ticker = t, candlesticks = Some (xs @ [c] @ ys)\<rparr>) m) =
            resp_candles (normalizeCandles toNumber
              (Provider \<lparr>resp_ticker = t, candlesticks = Some (xs @ ys)\<rparr>) m)"
    by (rule normalizeCandles_dropped)
next
  fix n assume n: "cents_of k f = Some n"
  then have r: "resolved toNumber k f = Some (n / 100)"
    using resolved_malformed[where toNumber = toNumber, OF assms(2,3)] by (simp add: cents_to_dollars_def)
  have "(\<exists>k'. resolved toNumber k' f = None) \<longleftrightarrow>
          (\<exists>k'. k' \<noteq> k \<and> resolved toNumber k' f = None)"
    using r by (metis option.distinct(1))
  then show "normalizeCandlestick toNumber c = None \<longleftrightarrow>
               (\<exists>k'. k' \<noteq> k \<and> resolved toNumber k' f = None) \<or> end_period_ts c = None"
    using normalizeCandlestick_None_iff[OF assms(1), of toNumber] by simp
  fix cd assume "normalizeCandlestick toNumber c = Some cd"
  from normalizeCandlestick_component[OF assms(1) this, of k] r
  show "component k cd = n / 100" by simp
qed

theorem malformed_dollar_falls_back_witness:
  "nullish (price (sample_stick (sample_field\<lparr>low_dollars := Some ''--'', low_c := None\<rparr>)))
           (yes_bid (sample_stick (sample_field\<lparr>low_dollars := Some ''--'', low_c := None\<rparr>))) =
     Some (sample_field\<lparr>low_dollars := Some ''--'', low_c := None\<rparr>) \<and>
   dollars_of Low (sample_field\<lparr>low_dollars := Some ''--'', low_c := None\<rparr>) = Some ''--'' \<and>
   (\<forall>n. sampleNumber ''--'' \<noteq> Finite n) \<and>
   cents_of Low (sample_field\<lparr>low_dollars := Some ''--'', low_c := None\<rparr>) = None \<and>
   normalizeCandlestick sampleNumber
     (sample_stick (sample_field\<lparr>low_dollars := Some ''--'', low_c := None\<rparr>)) = None"
proof -
  let ?f = "sample_field\<lparr>low_dollars := Some ''--'', low_c := None\<rparr>"
  have a: "nullish (price (sample_stick ?f)) (yes_bid (sample_stick ?f)) = Some ?f"
    by (simp add: sample_stick_def nullish_def)
  have b: "dollars_of Low ?f = Some ''--''" by simp
  have c: "\<forall>n. sampleNumber ''--'' \<noteq> Finite n" by (simp add: sampleNumber_def)
  have d: "cents_of Low ?f = None" by simp
  note inst = malformed_dollar_falls_back[where toNumber = sampleNumber, OF a b c,
      THEN conjunct2, THEN conjunct1, THEN mp, OF d]
  from a b c d inst[THEN conjunct1] show ?thesis by (intro conjI)
qed

text \<open>
  C7 (as stated, refuted). A component that carries both fields does not always take the
  dollar-string value: when the string is malformed (\<open>0,45\<close> with a decimal comma), the
  normalized close is the cents value \<open>15\<close> divided by 100.
\<close>

theorem dollars_precedence_counterexample:
  "dollars_of Close (sample_field\<lparr>close_dollars := Some ''0,45''\<rparr>) = Some ''0,45'' \<and>
   cents_of Close (sample_field\<lparr>close_dollars := Some ''0,45''\<rparr>) = Some 15 \<and>
   parseDollar sampleNumber (Some ''0,45'') = None \<and>
   map (component Close)
     (resp_candles (normalizeCandles sampleNumber
        (Provider \<lparr>resp_ticker = Some ''KXTEST-26'',
                   candlesticks = Some [sample_stick (sample_field\<lparr>close_dollars := Some ''0,45''\<rparr>)]\<rparr>)
        ''M'')) = [15 / 100]"
  by (simp add: sample_simps)

text \<open>
  C7 (amended). For every provider candlestick in which an OHLC component carries both a
  decimal-string dollar field that converts to a finite number and an integer-cents
  field, the normalized candle's value for that component is the parsed dollar value, not
  the cents value divided by 100.
\<close>

theorem dollars_take_precedence:
  assumes "nullish (price c) (yes_bid c) = Some f"
    and "dollars_of k f = Some s" and "toNumber s = Finite v"
    and "cents_of k f = Some n"
    and "normalizeCandlestick toNumber c = Some cd"
  shows "component k cd = v"
  using normalizeCandlestick_component[OF assms(1,5), of k] resolved_finite[where toNumber = toNumber, OF assms(2,3)]
  by simp

theorem dollars_take_precedence_witness:
  "nullish (price (sample_stick sample_field)) (yes_bid (sample_stick sample_field)) =
     Some sample_field \<and>
   dollars_of Open sample_field = Some ''0.4400'' \<and>
   sampleNumber ''0.4400'' = Finite 0.44 \<and>
   cents_of Open sample_field = Some 10 \<and>
   normalizeCandlestick sampleNumber (sample_stick sample_field) =
     Some \<lparr>timestamp = 1700000000000, open = 0.44, high = 0.47, low = 0.43, close = 0.45,
           updates = Finite 12\<rparr> \<and>
   component Open \<lparr>timestamp = 1700000000000, open = 0.44, high = 0.47, low = 0.43,
                   close = 0.45, updates = Finite 12\<rparr> = 0.44"
proof -
  let ?cd = "\<lparr>timestamp = 1700000000000, open = 0.44, high = 0.47, low = 0.43, close = 0.45,
              updates = Finite 12\<rparr>"
  have a: "nullish (price (sample_stick sample_field)) (yes_bid (sample_stick sample_field)) =
             Some sample_field"
    by (simp add: sample_stick_def nullish_def)
  have b: "dollars_of Open sample_field = Some ''0.4400''" by (simp add: sample_field_def)
  have c: "sampleNumber ''0.4400'' = Finite 0.44" by (simp add: sampleNumber_def)
  have d: "cents_of Open sample_field = Some 10" by (simp add: sample_field_def)
  have e: "normalizeCandlestick sampleNumber (sample_stick sample_field) = Some ?cd"
    by (simp add: sample_simps)
  from a b c d e dollars_take_precedence[where toNumber = sampleNumber, OF a b c d e]
  show ?thesis by (intro conjI)
qed


section \<open>Properties of the seat projection\<close>

lemma filter_prefix:
  assumes "k \<le> length xs"
    and "\<forall>i < k. P (xs ! i)"
    and "\<forall>i. k \<le> i \<and> i < length xs \<longrightarrow> \<not> P (xs ! i)"
  shows "filter P xs = take k xs"
proof -
  have "filter P (take k xs) = take k xs"
    using assms(1,2) by (auto simp: filter_id_conv in_set_conv_nth)
  moreover have "filter P (drop k xs) = []"
    using assms(1,3) by (auto simp: filter_empty_conv in_set_conv_nth)
  moreover have "filter P xs = filter P (take k xs) @ filter P (drop k xs)"
    by (metis append_take_drop_id filter_append)
  ultimately show ?thesis by simp
qed

lemma findCloseAtOrBefore_last:
  assumes "sorted (map timestamp cs)"
  shows "findCloseAtOrBefore cs T = lastCloseAtOrBefore cs T"
proof -
  let ?n = "length cs"
  define b where "b = close_loop cs T 0 (int ?n - 1) (- 1)"
  have inv: "- 1 \<le> b \<and> b < int ?n \<and>
             (\<forall>i < nat (b + 1). timestamp (cs ! i) \<le> T) \<and>
             (\<forall>i. nat (b + 1) \<le> i \<and> i < ?n \<longrightarrow> T < timestamp (cs ! i))"
    unfolding b_def by (rule close_loop_sorted) (use assms in auto)
  then have b: "- 1 \<le> b" "b < int ?n" by simp_all
  have "filter (\<lambda>c. timestamp c \<le> T) cs = take (nat (b + 1)) cs"
    by (rule filter_prefix) (use inv in auto)
  then have flt: "lastCloseAtOrBefore cs T =
      (case take (nat (b + 1)) cs of [] \<Rightarrow> None | x # xs \<Rightarrow> Some (close (last (x # xs))))"
    by (simp add: lastCloseAtOrBefore_def)
  have res: "findCloseAtOrBefore cs T =
               (if ?n = 0 \<or> b < 0 then None else Some (close (cs ! nat b)))"
    by (simp add: findCloseAtOrBefore_def b_def Let_def)
  show ?thesis
  proof (cases "?n = 0 \<or> b < 0")
    case True
    then have "take (nat (b + 1)) cs = []" using b by auto
    with True res flt show ?thesis by simp
  next
    case False
    then have nb: "nat b < ?n" "0 \<le> b" using b by auto
    then have ne: "take (nat (b + 1)) cs \<noteq> []" by auto
    have "nat (b + 1) = Suc (nat b)" using nb by simp
    then have "last (take (nat (b + 1)) cs) = cs ! nat b"
      using nb by (simp add: take_Suc_conv_app_nth)
    with ne have "(case take (nat (b + 1)) cs of [] \<Rightarrow> None | x # xs \<Rightarrow> Some (close (last (x # xs))))
                 = Some (close (cs ! nat b))"
      by (cases "take (nat (b + 1)) cs") auto
    with False res flt show ?thesis by simp
  qed
qed

lemma seat_inner_sums:
  assumes "\<forall>m \<in> set ms. sorted (map timestamp (candles m))"
  shows "seat_inner ms T w t = (w + seatSum ms T, t + weightSum ms T)"
  using assms
proof (induction ms arbitrary: w t)
  case Nil
  show ?case by (simp add: seatSum_def weightSum_def)
next
  case (Cons m ms)
  have eq: "findCloseAtOrBefore (candles m) T = lastCloseAtOrBefore (candles m) T"
    using Cons.prems by (simp add: findCloseAtOrBefore_last)
  have IH: "\<And>w t. seat_inner ms T w t = (w + seatSum ms T, t + weightSum ms T)"
    using Cons by simp
  show ?case
    by (cases "lastCloseAtOrBefore (candles m) T")
       (simp_all add: eq IH seatSum_def weightSum_def price_at_def)
qed

lemma seat_outer_map:
  assumes "\<forall>m \<in> set ms. sorted (map timestamp (candles m))"
  shows "seat_outer base ms acc =
           acc @ map (\<lambda>T. \<lparr>timestamp = T, value = seatSum ms T / weightSum ms T\<rparr>)
                   (filter (\<lambda>T. 0 < weightSum ms T) base)"
proof (induction base arbitrary: acc)
  case Nil
  show ?case by simp
next
  case (Cons T base)
  show ?case by (simp add: seat_inner_sums[OF assms] Cons.IH)
qed


text \<open>
  C3 (as stated, refuted). The fetcher neither sorts nor checks the candle histories, and
  on a history that is out of order the binary search of \<open>findCloseAtOrBefore\<close> need
  not find the last close at or before \<open>T\<close>. With timestamps \<open>1000, 3000, 2000\<close> and
  closes \<open>0.3, 0.7, 0.5\<close> the candles at or before \<open>T = 2500\<close> are those of \<open>1000\<close> and
  \<open>2000\<close>, so the last close is \<open>0.5\<close> and, beside a 20-seat market at \<open>0.5\<close>, the
  claimed value is \<open>(10 * 0.5 + 20 * 0.5) / (0.5 + 0.5) = 15\<close>; the search returns \<open>0.3\<close>
  and the point has value \<open>16.25\<close>. With timestamps \<open>3000, 1000\<close> and \<open>T = 2000\<close> the sum
  of the last closes is \<open>0.5\<close>, yet no point is emitted.
\<close>

theorem expectedSeatsPoints_unsorted_counterexample:
  "map (\<lambda>m. map timestamp (candles m)) unsorted_markets = [[1000, 3000, 2000], [1000]] \<and>
   map (\<lambda>m. map timestamp (filter (\<lambda>c. timestamp c \<le> 2500) (candles m))) unsorted_markets =
     [[1000, 2000], [1000]] \<and>
   map (\<lambda>m. lastCloseAtOrBefore (candles m) 2500) unsorted_markets = [Some 0.5, Some 0.5] \<and>
   map seats unsorted_markets = [10, 20] \<and>
   0 < weightSum unsorted_markets 2500 \<and>
   seatSum unsorted_markets 2500 / weightSum unsorted_markets 2500 = 15 \<and>
   map (\<lambda>m. findCloseAtOrBefore (candles m) 2500) unsorted_markets = [Some 0.3, Some 0.5] \<and>
   expectedSeatsPoints (Some [2500]) unsorted_markets = [\<lparr>timestamp = 2500, value = 16.25\<rparr>] \<and>
   map (\<lambda>m. lastCloseAtOrBefore (candles m) 2000) unsorted_single = [Some 0.5] \<and>
   0 < weightSum unsorted_single 2000 \<and>
   expectedSeatsPoints (Some [2000]) unsorted_single = []"
proof (intro conjI)
  show "map (\<lambda>m. map timestamp (candles m)) unsorted_markets = [[1000, 3000, 2000], [1000]]"
    by (simp add: unsorted_markets_def)
  show "map (\<lambda>m. map timestamp (filter (\<lambda>c. timestamp c \<le> 2500) (candles m))) unsorted_markets =
          [[1000, 2000], [1000]]"
    by (simp add: unsorted_markets_def)
  show "map (\<lambda>m. lastCloseAtOrBefore (candles m) 2500) unsorted_markets = [Some 0.5, Some 0.5]"
    by (simp add: lastCloseAtOrBefore_def unsorted_markets_def)
  show "map seats unsorted_markets = [10, 20]"
    by (simp add: unsorted_markets_def)
  show "0 < weightSum unsorted_markets 2500"
    by (simp add: weightSum_def price_at_def lastCloseAtOrBefore_def unsorted_markets_def)
  show "seatSum unsorted_markets 2500 / weightSum unsorted_markets 2500 = 15"
    by (simp add: seatSum_def weightSum_def price_at_def lastCloseAtOrBefore_def
        unsorted_markets_def)
  show "map (\<lambda>m. findCloseAtOrBefore (candles m) 2500) unsorted_markets = [Some 0.3, Some 0.5]"
    by (simp add: findCloseAtOrBefore_def close_loop.simps unsorted_markets_def)
  show "expectedSeatsPoints (Some [2500]) unsorted_markets = [\<lparr>timestamp = 2500, value = 16.25\<rparr>]"
    by (simp add: expectedSeatsPoints_def baseTimestamps_def unsorted_markets_def
        findCloseAtOrBefore_def close_loop.simps)
  show "map (\<lambda>m. lastCloseAtOrBefore (candles m) 2000) unsorted_single = [Some 0.5]"
    by (simp add: lastCloseAtOrBefore_def unsorted_single_def)
  show "0 < weightSum unsorted_single 2000"
    by (simp add: weightSum_def price_at_def lastCloseAtOrBefore_def unsorted_single_def)
  show "expectedSeatsPoints (Some [2000]) unsorted_single = []"
    by (simp add: expectedSeatsPoints_def baseTimestamps_def unsorted_single_def
        findCloseAtOrBefore_def close_loop.simps)
qed

text \<open>
  C3 (amended). For every basket of seat markets whose fetched candle histories are each
  sorted ascending by timestamp, and every timestamp \<open>T\<close> of the reference timestamp set, the projection has
  a point at \<open>T\<close> iff the sum over the markets of each market's last close at or before
  \<open>T\<close> is strictly positive, and the value of that point is
  \<open>\<Sum>(seats\<^sub>i * p\<^sub>i) / \<Sum>(p\<^sub>i)\<close>, a market without a candle at or before
  \<open>T\<close> contributing nothing. The whole output is the list of these points, in the
  order of the reference timestamps.
\<close>

theorem expectedSeatsPoints_weighted_average:
  assumes "\<forall>m \<in> set candleResults. sorted (map timestamp (candles m))"
  shows "expectedSeatsPoints referenceTimestamps candleResults =
           map (\<lambda>T. \<lparr>timestamp = T, value = seatSum candleResults T / weightSum candleResults T\<rparr>)
             (filter (\<lambda>T. 0 < weightSum candleResults T)
                (baseTimestamps referenceTimestamps candleResults)) \<and>
         (\<forall>T \<in> set (baseTimestamps referenceTimestamps candleResults).
            ((\<exists>pt \<in> set (expectedSeatsPoints referenceTimestamps candleResults). timestamp pt = T)
               \<longleftrightarrow> 0 < weightSum candleResults T) \<and>
            (\<forall>pt \<in> set (expectedSeatsPoints referenceTimestamps candleResults).
               timestamp pt = T \<longrightarrow>
               value pt = seatSum candleResults T / weightSum candleResults T))"
proof -
  have eq: "expectedSeatsPoints referenceTimestamps candleResults =
           map (\<lambda>T. \<lparr>timestamp = T, value = seatSum candleResults T / weightSum candleResults T\<rparr>)
             (filter (\<lambda>T. 0 < weightSum candleResults T)
                (baseTimestamps referenceTimestamps candleResults))"
    by (simp add: expectedSeatsPoints_def seat_outer_map[OF assms])
  show ?thesis
  proof (intro conjI ballI)
    show "expectedSeatsPoints referenceTimestamps candleResults =
           map (\<lambda>T. \<lparr>timestamp = T, value = seatSum candleResults T / weightSum candleResults T\<rparr>)
             (filter (\<lambda>T. 0 < weightSum candleResults T)
                (baseTimestamps referenceTimestamps candleResults))"
      by (rule eq)
  next
    fix T assume "T \<in> set (baseTimestamps referenceTimestamps candleResults)"
    then show "(\<exists>pt \<in> set (expectedSeatsPoints referenceTimestamps candleResults). timestamp pt = T)
               \<longleftrightarrow> 0 < weightSum candleResults T"
      unfolding eq by auto
  next
    fix T pt
    assume "pt \<in> set (expectedSeatsPoints referenceTimestamps candleResults)"
    then show "timestamp pt = T \<longrightarrow>
               value pt = seatSum candleResults T / weightSum candleResults T"
      unfolding eq by auto
  qed
qed

theorem expectedSeatsPoints_weighted_average_witness:
  "list_all (\<lambda>m. sorted (map timestamp (candles m))) sample_markets \<and>
   map seats sample_markets = [10, 20] \<and>
   map (\<lambda>m. lastCloseAtOrBefore (candles m) 2000) sample_markets = [Some 0.3, Some 0.7] \<and>
   map (\<lambda>m. lastCloseAtOrBefore (candles m) 500) sample_markets = [None, None] \<and>
   expectedSeatsPoints (Some [500, 2000]) sample_markets = [\<lparr>timestamp = 2000, value = 17\<rparr>]"
proof -
  have srt: "\<forall>m \<in> set sample_markets. sorted (map timestamp (candles m))"
    by (simp add: sample_markets_def)
  have w: "weightSum sample_markets 500 = 0" "weightSum sample_markets 2000 = 1"
    "seatSum sample_markets 2000 = 17"
    by (simp_all add: weightSum_def seatSum_def price_at_def lastCloseAtOrBefore_def
        sample_markets_def)
  have "expectedSeatsPoints (Some [500, 2000]) sample_markets = [\<lparr>timestamp = 2000, value = 17\<rparr>]"
    using expectedSeatsPoints_weighted_average[OF srt, of "Some [500, 2000]", THEN conjunct1]
    by (simp add: baseTimestamps_def w)
  moreover have "list_all (\<lambda>m. sorted (map timestamp (candles m))) sample_markets"
    using srt by (simp add: list_all_iff)
  moreover have "map seats sample_markets = [10, 20]" by (simp add: sample_markets_def)
  moreover have "map (\<lambda>m. lastCloseAtOrBefore (candles m) 2000) sample_markets =
                   [Some 0.3, Some 0.7]"
    by (simp add: lastCloseAtOrBefore_def sample_markets_def)
  moreover have "map (\<lambda>m. lastCloseAtOrBefore (candles m) 500) sample_markets = [None, None]"
    by (simp add: lastCloseAtOrBefore_def sample_markets_def)
  ultimately show ?thesis by (intro conjI)
qed

lemma expectedSeatsPoints_example_direct:
  "expectedSeatsPoints (Some [500, 2000]) sample_markets = [\<lparr>timestamp = 2000, value = 17\<rparr>]"
  by (simp add: expectedSeatsPoints_def baseTimestamps_def sample_markets_def
      findCloseAtOrBefore_def close_loop.simps)

lemma expectedSeatsPoints_example_union:
  "expectedSeatsPoints None sample_markets =
     [\<lparr>timestamp = 900, value = 20\<rparr>, \<lparr>timestamp = 1000, value = 16.25\<rparr>,
      \<lparr>timestamp = 2000, value = 17\<rparr>]"
  by (simp add: expectedSeatsPoints_def baseTimestamps_def sample_markets_def
      findCloseAtOrBefore_def close_loop.simps)


section \<open>Properties of the approval aggregator\<close>

text \<open>The accumulator from an arbitrary seed, to reason about the loop in mid-run.\<close>

lemma ema_loop_append: "ema_loop ps e acc = acc @ ema_loop ps e []"
proof (induction ps arbitrary: e acc)
  case Nil
  show ?case by simp
next
  case (Cons p ps)
  show ?case
    using Cons.IH[of _ "acc @ [_]"] Cons.IH[of _ "[_]"] by (simp add: Let_def)
qed

lemma ema_loop_Cons:
  "ema_loop (p # ps) e [] =
     \<lparr>timestamp = timestamp p, value = max 0 (min 100 (alpha * value p + (1 - alpha) * e))\<rparr>
     # ema_loop ps (alpha * value p + (1 - alpha) * e) []"
  using ema_loop_append[of ps _ "[_]"] by (simp add: Let_def)


lemma timestamps_ema_loop: "map timestamp (ema_loop ps e []) = map timestamp ps"
  by (induction ps arbitrary: e) (simp_all add: ema_loop_Cons del: ema_loop.simps(2))








lemma add_to_bucket_keys:
  "fst ` set (add_to_bucket p b) = insert (utcDayStart (timestamp p)) (fst ` set b)"
  by (simp add: add_to_bucket_def Let_def dom_update)

lemma add_to_bucket_distinct:
  "distinct (map fst b) \<Longrightarrow> distinct (map fst (add_to_bucket p b))"
  by (simp add: add_to_bucket_def Let_def distinct_update)

lemma fold_add_to_bucket:
  "distinct (map fst b) \<Longrightarrow>
   distinct (map fst (fold add_to_bucket raw b)) \<and>
   fst ` set (fold add_to_bucket raw b) = fst ` set b \<union> (utcDayStart \<circ> timestamp) ` set raw"
proof (induction raw arbitrary: b)
  case Nil
  then show ?case by simp
next
  case (Cons p raw)
  from Cons.IH[OF add_to_bucket_distinct[OF Cons.prems, of p]]
  show ?case by (auto simp: add_to_bucket_keys)
qed

lemma dayBuckets_keys:
  "distinct (map fst (dayBuckets raw)) \<and>
   fst ` set (dayBuckets raw) = (utcDayStart \<circ> timestamp) ` set raw"
  using fold_add_to_bucket[of "[]" raw] by (simp add: dayBuckets_def)

lemma dailyAverages_timestamps:
  "sorted (map timestamp (dailyAverages b)) \<and>
   mset (map timestamp (dailyAverages b)) = mset (map fst b)"
proof -
  have "map timestamp (map (\<lambda>(ts, bucket). \<lparr>timestamp = ts, value = fst bucket / snd bucket\<rparr>) b)
          = map fst b"
    by (simp add: comp_def case_prod_beta)
  then have "image_mset timestamp
               (mset (map (\<lambda>(ts, bucket). \<lparr>timestamp = ts, value = fst bucket / snd bucket\<rparr>) b))
             = mset (map fst b)"
    by (metis mset_map)
  then show ?thesis
    by (simp add: dailyAverages_def sorted_sort_key)
qed

lemma daily_strictly_increasing:
  "sorted_wrt (<) (map timestamp (dailyAverages (dayBuckets raw))) \<and>
   set (map timestamp (dailyAverages (dayBuckets raw))) = (utcDayStart \<circ> timestamp) ` set raw"
proof -
  let ?b = "dayBuckets raw"
  note ts = dailyAverages_timestamps[of ?b]
  have "distinct (map timestamp (dailyAverages ?b))"
    using ts dayBuckets_keys[of raw] by (metis mset_eq_imp_distinct_iff)
  moreover have "set (map timestamp (dailyAverages ?b)) = set (map fst ?b)"
    using ts by (metis mset_eq_setD)
  ultimately show ?thesis
    using ts dayBuckets_keys[of raw] by (simp add: strict_sorted_iff)
qed

lemma smoothDaily_timestamps: "map timestamp (smoothDaily daily) = map timestamp daily"
  by (simp add: smoothDaily_def emaSmooth_def timestamps_ema_loop)

lemma utcDayStart_midnight: "utcDayStart t mod 86400000 = 0"
  by (simp add: utcDayStart_def)

lemma day_index_inj:
  assumes "distinct ts" and "\<forall>t \<in> set ts. t mod 86400000 = (0 :: int)"
  shows "distinct (map (\<lambda>t. t div 86400000) ts)"
proof -
  have "inj_on (\<lambda>t. t div 86400000) (set ts)"
  proof (rule inj_onI)
    fix x y assume "x \<in> set ts" "y \<in> set ts" "x div 86400000 = y div 86400000"
    with assms(2) have "x mod 86400000 = 0" "y mod 86400000 = 0" by simp_all
    with \<open>x div 86400000 = y div 86400000\<close> show "x = y"
      by (metis add.right_neutral div_mult_mod_eq)
  qed
  with assms(1) show ?thesis by (simp add: distinct_map)
qed

lemma trumpApprovalProjection_example:
  "trumpApprovalProjection sampleParseDate sampleLower 1735900000000 TF_7D None (Some sample_polls) =
     [\<lparr>timestamp = 1735689600000, value = 42\<rparr>, \<lparr>timestamp = 1735776000000, value = 45\<rparr>]"
  by (simp add: trumpApprovalProjection_def smoothDaily_def dailyAverages_def dayBuckets_def
      add_to_bucket_def approvalRaw_def pollPoint_def getTimeWindow_def utcDayStart_def
      sampleParseDate_def sampleLower_def sample_polls_def List.map_filter_def Let_def)

text \<open>
  C10. For every list of polls, whatever the date parser, the lower-casing, the clock
  and the window, the points produced by the approval aggregator, in the raw-daily and
  in the smoothed branch alike, have strictly increasing timestamps, each of them a UTC
  midnight (a multiple of 86400000 ms), and no two of them fall on the same UTC calendar
  day.
\<close>

theorem trumpApprovalProjection_timestamps:
  "sorted_wrt (<)
     (map timestamp (trumpApprovalProjection parseDate toLowerCase now timeframe customRange polls)) \<and>
   list_all (\<lambda>p. timestamp p mod 86400000 = 0)
     (trumpApprovalProjection parseDate toLowerCase now timeframe customRange polls) \<and>
   distinct (map (\<lambda>p. timestamp p div 86400000)
     (trumpApprovalProjection parseDate toLowerCase now timeframe customRange polls))"
proof -
  define raw where
    "raw = approvalRaw parseDate toLowerCase (getTimeWindow now timeframe customRange) polls"
  define R where "R = trumpApprovalProjection parseDate toLowerCase now timeframe customRange polls"
  have ts: "map timestamp R = map timestamp (dailyAverages (dayBuckets raw))"
    by (simp add: R_def raw_def trumpApprovalProjection_def smoothDaily_timestamps)
  note inc = daily_strictly_increasing[of raw]
  have strict: "sorted_wrt (<) (map timestamp R)" using inc ts by simp
  have mid: "\<forall>t \<in> set (map timestamp R). t mod 86400000 = 0"
    using inc ts by (auto simp: utcDayStart_midnight)
  then have all: "list_all (\<lambda>p. timestamp p mod 86400000 = 0) R"
    by (simp add: list_all_iff)
  have "distinct (map timestamp R)" using strict by (simp add: strict_sorted_iff)
  from day_index_inj[OF this mid]
  have "distinct (map (\<lambda>p. timestamp p div 86400000) R)" by (simp add: comp_def)
  with strict all show ?thesis unfolding R_def by simp
qed

theorem trumpApprovalProjection_timestamps_witness:
  "trumpApprovalProjection sampleParseDate sampleLower 1735900000000 TF_7D None (Some sample_polls) =
     [\<lparr>timestamp = 1735689600000, value = 42\<rparr>, \<lparr>timestamp = 1735776000000, value = 45\<rparr>] \<and>
   sorted_wrt (<)
     (map timestamp
        (trumpApprovalProjection sampleParseDate sampleLower 1735900000000 TF_7D None
           (Some sample_polls))) \<and>
   list_all (\<lambda>p. timestamp p mod 86400000 = 0)
     (trumpApprovalProjection sampleParseDate sampleLower 1735900000000 TF_7D None
        (Some sample_polls)) \<and>
   distinct (map (\<lambda>p. timestamp p div 86400000)
     (trumpApprovalProjection sampleParseDate sampleLower 1735900000000 TF_7D None
        (Some sample_polls)))"
proof (rule conjI)
  show "trumpApprovalProjection sampleParseDate sampleLower 1735900000000 TF_7D None
          (Some sample_polls) =
        [\<lparr>timestamp = 1735689600000, value = 42\<rparr>, \<lparr>timestamp = 1735776000000, value = 45\<rparr>]"
    by (rule trumpApprovalProjection_example)
  show "sorted_wrt (<)
     (map timestamp
        (trumpApprovalProjection sampleParseDate sampleLower 1735900000000 TF_7D None
           (Some sample_polls))) \<and>
   list_all (\<lambda>p. timestamp p mod 86400000 = 0)
     (trumpApprovalProjection sampleParseDate sampleLower 1735900000000 TF_7D None
        (Some sample_polls)) \<and>
   distinct (map (\<lambda>p. timestamp p div 86400000)
     (trumpApprovalProjection sampleParseDate sampleLower 1735900000000 TF_7D None
        (Some sample_polls)))"
    by (rule trumpApprovalProjection_timestamps)
qed

end
